theory Spec2Isabelle
  imports Main "HOL-Library.Sublist" "HOL-Library.AList" "HOL-Library.Multiset"
begin

section \<open>JavaScript strings\<close>

text \<open>
  Strings are lists of 8-bit characters. Case conversion and the character classes are
  those of the ASCII range; the repository's slugs, category names and tags are ASCII.
  The one text that is read character by character whatever it holds, the \<open>limit\<close>
  parameter given to \<open>parseInt\<close>, is a list of code units instead (see below).
\<close>

definition isUpper :: "char \<Rightarrow> bool" where
  "isUpper c = (65 \<le> (of_char c :: nat) \<and> (of_char c :: nat) \<le> 90)"

definition isLower :: "char \<Rightarrow> bool" where
  "isLower c = (97 \<le> (of_char c :: nat) \<and> (of_char c :: nat) \<le> 122)"

definition isDigit :: "char \<Rightarrow> bool" where
  "isDigit c = (48 \<le> (of_char c :: nat) \<and> (of_char c :: nat) \<le> 57)"

text \<open>The white space that \<open>\s\<close> matches, within the ASCII range.\<close>

definition isWhiteSpace :: "char \<Rightarrow> bool" where
  "isWhiteSpace c = (c = CHR '' '' \<or> c = CHR 0x09 \<or> c = CHR 0x0A \<or> c = CHR 0x0B
     \<or> c = CHR 0x0C \<or> c = CHR 0x0D)"

definition toLowerChar :: "char \<Rightarrow> char" where
  "toLowerChar c = (if isUpper c then char_of ((of_char c :: nat) + 32) else c)"

definition toUpperChar :: "char \<Rightarrow> char" where
  "toUpperChar c = (if isLower c then char_of ((of_char c :: nat) - 32) else c)"

definition toLowerCase :: "string \<Rightarrow> string" where
  "toLowerCase s = map toLowerChar s"

text \<open>\<open>s.split(sep)\<close> for a one-character separator: never the empty array.\<close>

fun split :: "char \<Rightarrow> string \<Rightarrow> string list" where
  "split sep [] = [[]]"
| "split sep (c # cs) =
     (if c = sep then [] # split sep cs
      else (case split sep cs of [] \<Rightarrow> [[c]] | w # ws \<Rightarrow> (c # w) # ws))"

text \<open>\<open>words.join(sep)\<close>.\<close>

fun join :: "string \<Rightarrow> string list \<Rightarrow> string" where
  "join sep [] = []"
| "join sep [w] = w"
| "join sep (w # v # ws) = w @ sep @ join sep (v # ws)"

text \<open>\<open>word.charAt(0).toUpperCase() + word.slice(1)\<close>.\<close>

fun capitalize :: "string \<Rightarrow> string" where
  "capitalize [] = []"
| "capitalize (c # cs) = toUpperChar c # cs"

definition endsWith :: "string \<Rightarrow> char \<Rightarrow> bool" where
  "endsWith s c = (s \<noteq> [] \<and> last s = c)"

text \<open>The decimal numeral of a number, as a template literal prints it.\<close>

fun dec :: "nat \<Rightarrow> string" where
  "dec n = (if n < 10 then [''0123456789'' ! n]
            else dec (n div 10) @ [''0123456789'' ! (n mod 10)])"

declare dec.simps [simp del]

subsection \<open>parseInt\<close>

text \<open>
  The text that \<open>parseInt\<close> reads comes from the request and is a JavaScript string of any
  content: a sequence of UTF-16 code units, here natural numbers. \<open>units s\<close> is the text of
  an ASCII string.
\<close>

definition units :: "string \<Rightarrow> nat list" where
  "units s = map of_char s"

text \<open>
  The code units that \<open>parseInt\<close> skips at the start of the text: the white space and the
  line terminators of the language, which are tab, line feed, vertical tab, form feed,
  carriage return, space, no-break space, U+1680, U+2000 to U+200A, U+2028, U+2029, U+202F,
  U+205F, U+3000 and U+FEFF.
\<close>

definition isStrWhiteSpace :: "nat \<Rightarrow> bool" where
  "isStrWhiteSpace u =
     (u \<in> set [0x09, 0x0A, 0x0B, 0x0C, 0x0D, 0x20, 0xA0, 0x1680, 0x2028, 0x2029, 0x202F,
                0x205F, 0x3000, 0xFEFF]
      \<or> (0x2000 \<le> u \<and> u \<le> 0x200A))"


text \<open>
  A Number, as far as reading an integer can give one: \<open>NaN\<close>, an integer, or an infinity.
  \<open>-0\<close> is \<open>Finite 0\<close>: both are falsy.
\<close>

datatype number = NaN | Finite int | Infinity | MinusInfinity

text \<open>
  The double nearest to a natural number, ties going to the even significand. A number up
  to 2^53 is a double. A greater one keeps its 53 leading bits, rounded on what follows
  them; when the rounded value reaches 2^1024 the result is infinite, here \<open>None\<close>.
\<close>

fun bit_length :: "nat \<Rightarrow> nat" where
  "bit_length n = (if n = 0 then 0 else Suc (bit_length (n div 2)))"

declare bit_length.simps [simp del]

definition nearest_double :: "nat \<Rightarrow> nat option" where
  "nearest_double v =
     (if v \<le> 2 ^ 53 then Some v
      else let e = bit_length v - 53;
               q = v div 2 ^ e;
               r = v mod 2 ^ e;
               q' = (if 2 ^ e < 2 * r \<or> (2 * r = 2 ^ e \<and> odd q) then q + 1 else q);
               w = q' * 2 ^ e
           in if 2 ^ 1024 \<le> w then None else Some w)"

text \<open>
  \<open>parseInt(string)\<close> with no radix: leading white space is skipped, one sign is read,
  a prefix \<open>0x\<close> or \<open>0X\<close> switches to radix 16, and the longest prefix of digits of the
  radix is the number, rounded to a double. With no digit the result is \<open>NaN\<close>.
\<close>

definition digitOf :: "nat \<Rightarrow> nat \<Rightarrow> nat option" where
  "digitOf radix u =
     (let v = (if 48 \<le> u \<and> u \<le> 57 then Some (u - 48)
               else if 97 \<le> u \<and> u \<le> 122 then Some (u - 87)
               else if 65 \<le> u \<and> u \<le> 90 then Some (u - 55)
               else None)
      in case v of None \<Rightarrow> None | Some d \<Rightarrow> if d < radix then Some d else None)"

definition isDigitOf :: "nat \<Rightarrow> nat \<Rightarrow> bool" where
  "isDigitOf radix u = (digitOf radix u \<noteq> None)"

definition numberOf :: "nat \<Rightarrow> nat list \<Rightarrow> nat" where
  "numberOf radix z =
     foldl (\<lambda>acc u. acc * radix + (case digitOf radix u of None \<Rightarrow> 0 | Some d \<Rightarrow> d)) 0 z"

text \<open>The sign is \<open>+\<close> (43) or \<open>-\<close> (45); the prefix is \<open>0\<close> (48) and \<open>x\<close> (120) or \<open>X\<close> (88).\<close>

definition stripSign :: "nat list \<Rightarrow> nat list" where
  "stripSign s = (case s of [] \<Rightarrow> []
     | u # us \<Rightarrow> if u = 43 \<or> u = 45 then us else u # us)"

definition isNegative :: "nat list \<Rightarrow> bool" where
  "isNegative s = (case s of [] \<Rightarrow> False | u # us \<Rightarrow> u = 45)"

definition hasHexPrefix :: "nat list \<Rightarrow> bool" where
  "hasHexPrefix s = (case s of u # v # us \<Rightarrow> u = 48 \<and> (v = 120 \<or> v = 88)
     | _ \<Rightarrow> False)"

definition parseInt :: "nat list \<Rightarrow> number" where
  "parseInt str =
     (let s = dropWhile isStrWhiteSpace str;
          body = stripSign s;
          radix = (if hasHexPrefix body then 16 else 10);
          digits = (if hasHexPrefix body then drop 2 body else body);
          z = takeWhile (isDigitOf radix) digits
      in if z = [] then NaN
         else (case nearest_double (numberOf radix z) of
                 None \<Rightarrow> if isNegative s then MinusInfinity else Infinity
               | Some w \<Rightarrow> Finite ((if isNegative s then - 1 else 1) * int w)))"


section \<open>The article store\<close>

text \<open>
  An article as the routes read it from the store. The text columns \<open>category\<close> and
  \<open>subcategory\<close> may be null.
\<close>

record article =
  art_id :: nat
  art_slug :: string
  art_category :: "string option"
  art_subcategory :: "string option"
  art_tags :: "string list"
  art_published_date :: int

datatype column = Category | Subcategory | Slug

fun text_of :: "column \<Rightarrow> article \<Rightarrow> string option" where
  "text_of Category a = art_category a"
| "text_of Subcategory a = art_subcategory a"
| "text_of Slug a = Some (art_slug a)"

text \<open>The filters the routes build, for either client library.\<close>

datatype cond =
    RegExp_i column string
  | TagsRegExp_i string
  | ILike column string
  | TagsContains "string list"
  | Equals column string
  | AnyOf "cond list"
  | AllOf "cond list"

record query =
  q_filter :: cond
  q_limit :: "number option"

record store_error =
  err_code :: string
  err_message :: string

text \<open>
  Modelled from the spec: the article store is an external service (MongoDB through
  mongoose, or PostgreSQL through the Supabase client), so what it does with a query is
  written from the spec's words: a field matches when the candidate text appears anywhere
  within it, case-insensitively; results are ordered by \<open>published_date\<close> descending and
  only the first \<open>limit\<close> are returned. What the spec does not say is a parameter of the
  backend: the meaning of a pattern that holds characters other than letters, digits,
  spaces and hyphens (regular-expression or \<open>LIKE\<close> metacharacters), the answer to a limit
  that is not a positive integer, and whether a query fails (a pattern that the regular-expression constructor
  or the store rejects is such a failure).
\<close>

record backend =
  special :: "string \<Rightarrow> string \<Rightarrow> bool"
  other_limit :: "number \<Rightarrow> article list \<Rightarrow> article list"
  fault :: "query \<Rightarrow> store_error option"

definition plain_char :: "char \<Rightarrow> bool" where
  "plain_char c = (isUpper c \<or> isLower c \<or> isDigit c \<or> c = CHR '' '' \<or> c = CHR ''-'')"

definition plain :: "string \<Rightarrow> bool" where
  "plain p = list_all plain_char p"

definition ci_contains :: "string \<Rightarrow> string \<Rightarrow> bool" where
  "ci_contains p s = sublist (toLowerCase p) (toLowerCase s)"

definition pattern_match :: "backend \<Rightarrow> string \<Rightarrow> string \<Rightarrow> bool" where
  "pattern_match be p s = (if plain p then ci_contains p s else special be p s)"

fun holds :: "backend \<Rightarrow> cond \<Rightarrow> article \<Rightarrow> bool" where
  "holds be (RegExp_i col p) a =
     (case text_of col a of None \<Rightarrow> False | Some s \<Rightarrow> pattern_match be p s)"
| "holds be (TagsRegExp_i p) a = list_ex (pattern_match be p) (art_tags a)"
| "holds be (ILike col p) a =
     (case text_of col a of None \<Rightarrow> False | Some s \<Rightarrow> pattern_match be p s)"
| "holds be (TagsContains vs) a = list_all (\<lambda>v. v \<in> set (art_tags a)) vs"
| "holds be (Equals col v) a = (text_of col a = Some v)"
| "holds be (AnyOf cs) a = list_ex (\<lambda>c. holds be c a) cs"
| "holds be (AllOf cs) a = list_all (\<lambda>c. holds be c a) cs"

definition order_desc :: "article list \<Rightarrow> article list" where
  "order_desc rows = sort_key (\<lambda>a. - art_published_date a) rows"

definition apply_limit :: "backend \<Rightarrow> number option \<Rightarrow> article list \<Rightarrow> article list" where
  "apply_limit be l rows =
     (case l of None \<Rightarrow> rows
      | Some (Finite n) \<Rightarrow> if 1 \<le> n then take (nat n) rows else other_limit be (Finite n) rows
      | Some x \<Rightarrow> other_limit be x rows)"

text \<open>A list query: \<open>find(filter).sort(..).limit(..)\<close>, \<open>select('*')...order(..).limit(..)\<close>.\<close>

definition find_many :: "backend \<Rightarrow> query \<Rightarrow> article list \<Rightarrow> store_error + article list" where
  "find_many be q tab =
     (case fault be q of
        Some e \<Rightarrow> Inl e
      | None \<Rightarrow> Inr (apply_limit be (q_limit q) (order_desc (filter (holds be (q_filter q)) tab))))"

section \<open>The routes\<close>

datatype response =
    Json "article list"
  | JsonOne article
  | Status nat string

subsection \<open>GET /featured\<close>





subsection \<open>GET /category/:categorySlug\<close>

text \<open>
  \<open>categorySlug.split('-').map(word => word.charAt(0).toUpperCase() + word.slice(1)).join(' ')\<close>
  and the two variants derived from it.
\<close>

definition categoryName :: "string \<Rightarrow> string" where
  "categoryName categorySlug = join '' '' (map capitalize (split CHR ''-'' categorySlug))"

definition singularCategory :: "string \<Rightarrow> string" where
  "singularCategory name = (if endsWith name CHR ''s'' then butlast name else name)"

definition pluralCategory :: "string \<Rightarrow> string" where
  "pluralCategory name = (if \<not> endsWith name CHR ''s'' then name @ ''s'' else name)"

text \<open>The mongoose variant: one query, \<open>$or\<close> of three category patterns and one tag pattern.\<close>

definition category_query_mongoose :: "string \<Rightarrow> query" where
  "category_query_mongoose categorySlug =
     (let name = categoryName categorySlug
      in \<lparr>q_filter = AnyOf [RegExp_i Category name,
                             RegExp_i Category (singularCategory name),
                             RegExp_i Category (pluralCategory name),
                             TagsRegExp_i name],
          q_limit = None\<rparr>)"

definition category_mongoose :: "backend \<Rightarrow> string \<Rightarrow> article list \<Rightarrow> response" where
  "category_mongoose be categorySlug tab =
     (case find_many be (category_query_mongoose categorySlug) tab of
        Inl e \<Rightarrow> Status 500 (err_message e)
      | Inr articles \<Rightarrow> Json articles)"

text \<open>
  The Supabase variant: a first query on the category (\<open>ILike col x\<close> stands for
  \<open>col.ilike.%x%\<close>), a second on the tags (\<open>.contains('tags', [categoryName])\<close>), and the tag
  rows pushed onto the category rows unless a row with the same \<open>id\<close> is there already.
\<close>

definition category_query_supabase :: "string \<Rightarrow> query" where
  "category_query_supabase categorySlug =
     (let name = categoryName categorySlug
      in \<lparr>q_filter = AnyOf [ILike Category name,
                             ILike Category (singularCategory name),
                             ILike Category (pluralCategory name)],
          q_limit = None\<rparr>)"

definition tags_query_supabase :: "string \<Rightarrow> query" where
  "tags_query_supabase name = \<lparr>q_filter = TagsContains [name], q_limit = None\<rparr>"

definition push_new :: "article list \<Rightarrow> article \<Rightarrow> article list" where
  "push_new combinedArticles tagArticle =
     (if list_ex (\<lambda>article. art_id article = art_id tagArticle) combinedArticles
      then combinedArticles else combinedArticles @ [tagArticle])"

definition combine :: "article list \<Rightarrow> article list \<Rightarrow> article list" where
  "combine categoryArticles tagArticles = foldl push_new categoryArticles tagArticles"

definition category_supabase :: "backend \<Rightarrow> string \<Rightarrow> article list \<Rightarrow> response" where
  "category_supabase be categorySlug tab =
     (case find_many be (category_query_supabase categorySlug) tab of
        Inl e \<Rightarrow> Status 500 (err_message e)
      | Inr categoryArticles \<Rightarrow>
          (case find_many be (tags_query_supabase (categoryName categorySlug)) tab of
             Inl e \<Rightarrow> Status 500 (err_message e)
           | Inr tagArticles \<Rightarrow> Json (combine categoryArticles tagArticles)))"

text \<open>
  The spec's category test: the \<open>category\<close> field contains, case-insensitively, the
  formatted name, its singular or its plural.
\<close>

definition category_matches :: "string \<Rightarrow> article \<Rightarrow> bool" where
  "category_matches name a =
     (case art_category a of None \<Rightarrow> False
      | Some s \<Rightarrow> ci_contains name s \<or> ci_contains (singularCategory name) s
                 \<or> ci_contains (pluralCategory name) s)"

subsection \<open>GET /tag/:tagName\<close>

text \<open>
  \<open>decodeURIComponent\<close> is a parameter: it returns the decoded name, or nothing when it
  throws \<open>URIError\<close>. A route returns its response and the queries it sent, in order.
\<close>

definition tag_primary_mongoose :: "string \<Rightarrow> query" where
  "tag_primary_mongoose t = \<lparr>q_filter = TagsRegExp_i t, q_limit = None\<rparr>"

definition tag_fallback_mongoose :: "string \<Rightarrow> query" where
  "tag_fallback_mongoose t =
     \<lparr>q_filter = AnyOf [RegExp_i Category t, RegExp_i Subcategory t], q_limit = None\<rparr>"

definition tag_primary_supabase :: "string \<Rightarrow> query" where
  "tag_primary_supabase t = \<lparr>q_filter = TagsContains [t], q_limit = None\<rparr>"

definition tag_fallback_supabase :: "string \<Rightarrow> query" where
  "tag_fallback_supabase t =
     \<lparr>q_filter = AnyOf [ILike Category t, ILike Subcategory t], q_limit = None\<rparr>"

definition tag_route ::
  "(string \<Rightarrow> query) \<Rightarrow> (string \<Rightarrow> query) \<Rightarrow> (string \<Rightarrow> string option) \<Rightarrow> backend \<Rightarrow> string
     \<Rightarrow> article list \<Rightarrow> response \<times> query list" where
  "tag_route primary fallback decodeURIComponent be tagName tab =
     (case decodeURIComponent tagName of
        None \<Rightarrow> (Status 500 ''URI malformed'', [])
      | Some decodedTagName \<Rightarrow>
          (case find_many be (primary decodedTagName) tab of
             Inl e \<Rightarrow> (Status 500 (err_message e), [primary decodedTagName])
           | Inr articles \<Rightarrow>
               if length articles = 0
               then (case find_many be (fallback decodedTagName) tab of
                       Inl e \<Rightarrow> (Status 500 (err_message e),
                                 [primary decodedTagName, fallback decodedTagName])
                     | Inr others \<Rightarrow> (Json others,
                                 [primary decodedTagName, fallback decodedTagName]))
               else (Json articles, [primary decodedTagName])))"

definition tag_mongoose ::
  "(string \<Rightarrow> string option) \<Rightarrow> backend \<Rightarrow> string \<Rightarrow> article list \<Rightarrow> response \<times> query list" where
  "tag_mongoose = tag_route tag_primary_mongoose tag_fallback_mongoose"

definition tag_supabase ::
  "(string \<Rightarrow> string option) \<Rightarrow> backend \<Rightarrow> string \<Rightarrow> article list \<Rightarrow> response \<times> query list" where
  "tag_supabase = tag_route tag_primary_supabase tag_fallback_supabase"

text \<open>The spec's tests for a tag name.\<close>

definition tag_matches :: "string \<Rightarrow> article \<Rightarrow> bool" where
  "tag_matches t a = list_ex (ci_contains t) (art_tags a)"

definition field_matches :: "string \<Rightarrow> string option \<Rightarrow> bool" where
  "field_matches t v = (case v of None \<Rightarrow> False | Some s \<Rightarrow> ci_contains t s)"

definition category_or_subcategory_matches :: "string \<Rightarrow> article \<Rightarrow> bool" where
  "category_or_subcategory_matches t a =
     (field_matches t (art_category a) \<or> field_matches t (art_subcategory a))"

subsection \<open>GET /:slug\<close>

text \<open>
  \<open>Article.findOne({ slug })\<close> yields the first match or null.
  \<open>.eq('slug', slug).single()\<close> yields the row when exactly one matches and the error
  \<open>PGRST116\<close> when none or several do.
\<close>

definition slug_query :: "string \<Rightarrow> query" where
  "slug_query slug = \<lparr>q_filter = Equals Slug slug, q_limit = None\<rparr>"

definition findOne :: "backend \<Rightarrow> query \<Rightarrow> article list \<Rightarrow> store_error + article option" where
  "findOne be q tab =
     (case fault be q of
        Some e \<Rightarrow> Inl e
      | None \<Rightarrow> (case filter (holds be (q_filter q)) tab of
                   [] \<Rightarrow> Inr None
                 | a # rest \<Rightarrow> Inr (Some a)))"

definition single :: "backend \<Rightarrow> query \<Rightarrow> article list \<Rightarrow> store_error + article" where
  "single be q tab =
     (case fault be q of
        Some e \<Rightarrow> Inl e
      | None \<Rightarrow> (case filter (holds be (q_filter q)) tab of
                   [a] \<Rightarrow> Inr a
                 | _ \<Rightarrow> Inl \<lparr>err_code = ''PGRST116'',
                            err_message = ''JSON object requested, multiple (or no) rows returned''\<rparr>))"

definition slug_mongoose :: "backend \<Rightarrow> string \<Rightarrow> article list \<Rightarrow> response" where
  "slug_mongoose be slug tab =
     (case findOne be (slug_query slug) tab of
        Inl e \<Rightarrow> Status 500 (err_message e)
      | Inr None \<Rightarrow> Status 404 ''Article not found''
      | Inr (Some article) \<Rightarrow> JsonOne article)"

definition slug_supabase :: "backend \<Rightarrow> string \<Rightarrow> article list \<Rightarrow> response" where
  "slug_supabase be slug tab =
     (case single be (slug_query slug) tab of
        Inl e \<Rightarrow> if err_code e = ''PGRST116'' then Status 404 ''Article not found''
                 else Status 500 (err_message e)
      | Inr article \<Rightarrow> JsonOne article)"

section \<open>The migration job\<close>

subsection \<open>Source documents\<close>

text \<open>
  A value of a MongoDB document's field. Numbers are integers; a date is its time in
  milliseconds. Objects (dates, arrays) are truthy.
\<close>

datatype jsval =
    JUndefined
  | JNull
  | JBool bool
  | JNum int
  | JStr string
  | JArr "jsval list"
  | JDate nat

fun truthy :: "jsval \<Rightarrow> bool" where
  "truthy JUndefined = False"
| "truthy JNull = False"
| "truthy (JBool b) = b"
| "truthy (JNum n) = (n \<noteq> 0)"
| "truthy (JStr s) = (s \<noteq> [])"
| "truthy (JArr vs) = True"
| "truthy (JDate t) = True"

text \<open>\<open>a || b\<close>.\<close>

definition or_else :: "jsval \<Rightarrow> jsval \<Rightarrow> jsval" where
  "or_else a b = (if truthy a then a else b)"

text \<open>
  A document: its \<open>_id\<close> (an ObjectId, here the string that \<open>toString()\<close> gives, or absent)
  and its other properties. A property that is not there reads as \<open>undefined\<close>.
\<close>

record mongo_doc =
  doc_id :: "string option"
  props :: "(string \<times> jsval) list"

definition doc_get :: "mongo_doc \<Rightarrow> string \<Rightarrow> jsval" where
  "doc_get doc k = (case map_of (props doc) k of None \<Rightarrow> JUndefined | Some v \<Rightarrow> v)"

subsection \<open>convertDocumentToSupabaseFormat\<close>

record supabase_article =
  title :: jsval
  slug :: jsval
  author :: jsval
  published_date :: jsval
  content :: jsval
  excerpt :: jsval
  category :: jsval
  subcategory :: jsval
  tags :: jsval
  source :: jsval
  image_field :: jsval
  image_caption :: jsval
  image_alt :: jsval
  image_credit :: jsval
  pdf_url :: jsval
  author_bio :: jsval
  is_featured :: jsval
  mongo_id :: "string option"

text \<open>What one call reads from the runtime: \<open>Date.now()\<close>,
  \<open>Math.floor(Math.random() * 1000)\<close> and \<open>new Date()\<close>.\<close>

record clock =
  date_now :: nat
  random_1000 :: nat
  new_date :: nat

text \<open>
  \<open>doc.content?.substring(0, 150)\<close>: \<open>undefined\<close> (here \<open>None\<close>) when the content is null
  or undefined, the first 150 characters of a string, and a \<open>TypeError\<close> for any other
  value, which has no \<open>substring\<close> method.
\<close>

definition content_substring :: "jsval \<Rightarrow> string + string option" where
  "content_substring c =
     (case c of
        JUndefined \<Rightarrow> Inr None
      | JNull \<Rightarrow> Inr None
      | JStr s \<Rightarrow> Inr (Some (take 150 s))
      | _ \<Rightarrow> Inl ''doc.content?.substring is not a function'')"

text \<open>\<open>v + '...'\<close> for such a value: \<open>undefined\<close> is converted to the string \<open>"undefined"\<close>.\<close>

definition plus_string :: "string option \<Rightarrow> string \<Rightarrow> string" where
  "plus_string v s = (case v of None \<Rightarrow> ''undefined'' @ s | Some t \<Rightarrow> t @ s)"

text \<open>
  \<open>doc.excerpt || doc.content?.substring(0, 150) + '...' || ''\<close>, where \<open>+\<close> binds tighter
  than \<open>||\<close> and the right operand of \<open>||\<close> is evaluated only when the left one is falsy.
\<close>

definition excerpt_of :: "mongo_doc \<Rightarrow> string + jsval" where
  "excerpt_of doc =
     (if truthy (doc_get doc ''excerpt'') then Inr (doc_get doc ''excerpt'')
      else (case content_substring (doc_get doc ''content'') of
              Inl e \<Rightarrow> Inl e
            | Inr v \<Rightarrow> Inr (or_else (JStr (plus_string v ''...'')) (JStr ''''))))"

definition convertDocumentToSupabaseFormat :: "clock \<Rightarrow> mongo_doc \<Rightarrow> string + supabase_article" where
  "convertDocumentToSupabaseFormat ck doc =
     (let tags_value = (case doc_get doc ''tags'' of JArr vs \<Rightarrow> JArr vs | _ \<Rightarrow> JArr []);
          mongo_id_value = doc_id doc
      in case excerpt_of doc of
           Inl e \<Rightarrow> Inl e
         | Inr excerpt_value \<Rightarrow>
             Inr \<lparr>title = or_else (doc_get doc ''title'') (JStr ''''),
                  slug = or_else (doc_get doc ''slug'')
                           (JStr (''article-'' @ dec (date_now ck) @ ''-'' @ dec (random_1000 ck))),
                  author = or_else (doc_get doc ''author'') (JStr ''Unknown''),
                  published_date = or_else (doc_get doc ''published_date'') (JDate (new_date ck)),
                  content = or_else (doc_get doc ''content'') (JStr ''''),
                  excerpt = excerpt_value,
                  category = or_else (doc_get doc ''category'') (JStr ''Uncategorized''),
                  subcategory = or_else (doc_get doc ''subcategory'') JNull,
                  tags = tags_value,
                  source = or_else (doc_get doc ''source'') JNull,
                  image_field = or_else (doc_get doc ''image'') JNull,
                  image_caption = or_else (doc_get doc ''imageCaption'')
                                    (or_else (doc_get doc ''image_caption'') JNull),
                  image_alt = or_else (doc_get doc ''imageAlt'') (or_else (doc_get doc ''image_alt'') JNull),
                  image_credit = or_else (doc_get doc ''imageCredit'')
                                   (or_else (doc_get doc ''image_credit'') JNull),
                  pdf_url = or_else (doc_get doc ''pdf_url'') JNull,
                  author_bio = or_else (doc_get doc ''author_bio'') JNull,
                  is_featured = or_else (doc_get doc ''is_featured'') (JBool False),
                  mongo_id = mongo_id_value\<rparr>)"

text \<open>\<open>articles.map(convertDocumentToSupabaseFormat)\<close>: the first exception ends the map.
  The \<open>k\<close>-th call reads the clock \<open>ck k\<close>.\<close>

fun convert_all :: "(nat \<Rightarrow> clock) \<Rightarrow> nat \<Rightarrow> mongo_doc list \<Rightarrow> string + supabase_article list" where
  "convert_all ck k [] = Inr []"
| "convert_all ck k (doc # docs) =
     (case convertDocumentToSupabaseFormat (ck k) doc of
        Inl e \<Rightarrow> Inl e
      | Inr row \<Rightarrow> (case convert_all ck (Suc k) docs of
                      Inl e \<Rightarrow> Inl e
                    | Inr rows \<Rightarrow> Inr (row # rows)))"

text \<open>The subscriber conversion, an arrow function in \<open>migrateSubscribers\<close>; \<open>t\<close> is what
  \<open>new Date()\<close> gives.\<close>

record supabase_subscriber =
  email :: jsval
  subscribed_at :: jsval
  status :: jsval
  subscriber_mongo_id :: "string option"

definition convertSubscriber :: "nat \<Rightarrow> mongo_doc \<Rightarrow> supabase_subscriber" where
  "convertSubscriber t doc =
     \<lparr>email = doc_get doc ''email'',
      subscribed_at = or_else (doc_get doc ''subscribed_at'')
                        (or_else (doc_get doc ''created_at'') (JDate t)),
      status = or_else (doc_get doc ''status'') (JStr ''active''),
      subscriber_mongo_id = doc_id doc\<rparr>"

text \<open>
  The slug that the article routes derive from an ASCII title (\<open>createSlug\<close>, and the mongoose
  schema's \<open>pre('save')\<close> hook): \<open>title.toLowerCase().replace(/[^\w\s-]/g, '').replace(/\s+/g, '-')\<close>.
\<close>

definition isWordChar :: "char \<Rightarrow> bool" where
  "isWordChar c = (isUpper c \<or> isLower c \<or> isDigit c \<or> c = CHR ''_'')"

text \<open>\<open>replace(/\s+/g, '-')\<close>: every maximal run of white space becomes one hyphen; the flag
  says that the character before was white space.\<close>

fun collapse_spaces :: "bool \<Rightarrow> string \<Rightarrow> string" where
  "collapse_spaces in_run [] = []"
| "collapse_spaces in_run (c # cs) =
     (if isWhiteSpace c
      then (if in_run then collapse_spaces True cs else CHR ''-'' # collapse_spaces True cs)
      else c # collapse_spaces False cs)"

definition createSlug :: "string \<Rightarrow> string" where
  "createSlug t =
     collapse_spaces False
       (filter (\<lambda>c. isWordChar c \<or> isWhiteSpace c \<or> c = CHR ''-'') (toLowerCase t))"

subsection \<open>The destination store\<close>

text \<open>
  Modelled from the spec: the destination is an external service, reached through the
  client \<open>supabaseAdmin\<close> that the script imports from \<open>utils/supabase.js\<close> (the module
  as it is in the repository exports the default client only, so the client is taken as
  given). An upsert is insert-or-update keyed on a declared conflict column: a row whose
  key is in the table overwrites the row there, or is skipped when duplicates are ignored;
  a row whose key is new is added. A call is all-or-nothing: what the store answers to the
  call of a batch is a parameter.
\<close>

fun upsert_row :: "('r \<Rightarrow> 'k) \<Rightarrow> bool \<Rightarrow> 'r list \<Rightarrow> 'r \<Rightarrow> 'r list" where
  "upsert_row key ignore [] r = [r]"
| "upsert_row key ignore (x # xs) r =
     (if key x = key r then (if ignore then x # xs else r # xs)
      else x # upsert_row key ignore xs r)"

definition upsert :: "('r \<Rightarrow> 'k) \<Rightarrow> bool \<Rightarrow> 'r list \<Rightarrow> 'r list \<Rightarrow> 'r list" where
  "upsert key ignore table batch = foldl (upsert_row key ignore) table batch"

text \<open>The answer to one upsert call: \<open>{ error: null }\<close>, \<open>{ error }\<close> with its message and
  details, or a rejected promise with its message and stack. The empty string stands for
  details or a stack that are falsy.\<close>

datatype verdict =
    Accepted
  | Rejected string string
  | Threw string string

record 'r upsert_call =
  call_table :: string
  call_rows :: "'r list"
  onConflict :: string
  ignoreDuplicates :: bool

subsection \<open>migrateData and migrateSubscribers\<close>

text \<open>
  The state of a run: the counters of the procedure that is running, the lines appended to
  the log (without their time stamps), the upsert calls made, and the two destination
  tables. The pause of 500 ms after a batch takes time only and is left out.
\<close>

record job =
  successCount :: nat
  errorCount :: nat
  logged :: "string list"
  article_calls :: "supabase_article upsert_call list"
  subscriber_calls :: "supabase_subscriber upsert_call list"
  articles_table :: "supabase_article list"
  subscribers_table :: "supabase_subscriber list"

definition log :: "string \<Rightarrow> job \<Rightarrow> job" where
  "log msg st = st\<lparr>logged := logged st @ [msg]\<rparr>"

text \<open>\<open>xs.slice(a, b)\<close> for \<open>0 \<le> a \<le> b\<close>, and \<open>Math.ceil(n / d)\<close>.\<close>

definition slice :: "nat \<Rightarrow> nat \<Rightarrow> 'a list \<Rightarrow> 'a list" where
  "slice a b xs = take (b - a) (drop a xs)"

definition ceil_div :: "nat \<Rightarrow> nat \<Rightarrow> nat" where
  "ceil_div n d = (n + d - 1) div d"

definition batchSize :: nat where
  "batchSize = 10"

definition subscribers_batchSize :: nat where
  "subscribers_batchSize = 20"

text \<open>The body of the article loop for the batch that starts at \<open>i\<close>; \<open>store k\<close> is the
  answer to the call of batch \<open>k\<close> (counted from 0).\<close>

definition articles_batch :: "(nat \<Rightarrow> verdict) \<Rightarrow> supabase_article list \<Rightarrow> nat \<Rightarrow> job \<Rightarrow> job" where
  "articles_batch store supabaseArticles i st =
     (let batch = slice i (i + batchSize) supabaseArticles;
          number = dec (i div batchSize + 1);
          st1 = log (''Processing batch '' @ number @ ''/''
                       @ dec (ceil_div (length supabaseArticles) batchSize)) st;
          st2 = st1\<lparr>article_calls := article_calls st1 @
                  [\<lparr>call_table = ''articles'', call_rows = batch,
                    onConflict = ''slug'', ignoreDuplicates = False\<rparr>]\<rparr>
      in case store (i div batchSize) of
           Rejected message details \<Rightarrow>
             (let st3 = log (''Error in batch '' @ number @ '': '' @ message) st2;
                  st4 = (if details \<noteq> [] then log (''Error details: '' @ details) st3 else st3)
              in st4\<lparr>errorCount := errorCount st4 + length batch\<rparr>)
         | Accepted \<Rightarrow>
             log (''Successfully inserted/updated '' @ dec (length batch) @ '' articles'')
               (st2\<lparr>successCount := successCount st2 + length batch,
                    articles_table := upsert slug False (articles_table st2) batch\<rparr>)
         | Threw message stack \<Rightarrow>
             (let st3 = log (''Exception in batch '' @ number @ '': '' @ message) st2;
                  st4 = (if stack \<noteq> [] then log (''Stack trace: '' @ stack) st3 else st3)
              in st4\<lparr>errorCount := errorCount st4 + length batch\<rparr>))"

function articles_loop :: "(nat \<Rightarrow> verdict) \<Rightarrow> supabase_article list \<Rightarrow> nat \<Rightarrow> job \<Rightarrow> job" where
  "articles_loop store supabaseArticles i st =
     (if i < length supabaseArticles
      then articles_loop store supabaseArticles (i + batchSize)
             (articles_batch store supabaseArticles i st)
      else st)"
  by pat_completeness auto
termination
  by (relation "measure (\<lambda>(store, supabaseArticles, i, st). length supabaseArticles - i)")
     (auto simp: batchSize_def)

declare articles_loop.simps [simp del]

definition subscribers_batch ::
  "(nat \<Rightarrow> verdict) \<Rightarrow> supabase_subscriber list \<Rightarrow> nat \<Rightarrow> job \<Rightarrow> job" where
  "subscribers_batch store supabaseSubscribers i st =
     (let batch = slice i (i + subscribers_batchSize) supabaseSubscribers;
          number = dec (i div subscribers_batchSize + 1);
          st1 = log (''Processing subscribers batch '' @ number @ ''/''
                       @ dec (ceil_div (length supabaseSubscribers) subscribers_batchSize)) st;
          st2 = st1\<lparr>subscriber_calls := subscriber_calls st1 @
                  [\<lparr>call_table = ''subscribers'', call_rows = batch,
                    onConflict = ''email'', ignoreDuplicates = True\<rparr>]\<rparr>
      in case store (i div subscribers_batchSize) of
           Rejected message details \<Rightarrow>
             (let st3 = log (''Error in subscribers batch '' @ number @ '': '' @ message) st2
              in st3\<lparr>errorCount := errorCount st3 + length batch\<rparr>)
         | Accepted \<Rightarrow>
             log (''Successfully inserted/updated '' @ dec (length batch) @ '' subscribers'')
               (st2\<lparr>successCount := successCount st2 + length batch,
                    subscribers_table := upsert email True (subscribers_table st2) batch\<rparr>)
         | Threw message stack \<Rightarrow>
             (let st3 = log (''Exception in subscribers batch '' @ number @ '': '' @ message) st2
              in st3\<lparr>errorCount := errorCount st3 + length batch\<rparr>))"

function subscribers_loop ::
  "(nat \<Rightarrow> verdict) \<Rightarrow> supabase_subscriber list \<Rightarrow> nat \<Rightarrow> job \<Rightarrow> job" where
  "subscribers_loop store supabaseSubscribers i st =
     (if i < length supabaseSubscribers
      then subscribers_loop store supabaseSubscribers (i + subscribers_batchSize)
             (subscribers_batch store supabaseSubscribers i st)
      else st)"
  by pat_completeness auto
termination
  by (relation "measure (\<lambda>(store, supabaseSubscribers, i, st). length supabaseSubscribers - i)")
     (auto simp: subscribers_batchSize_def)

declare subscribers_loop.simps [simp del]

text \<open>
  The source database and the runtime of one run: whether \<open>connect()\<close> fails (with which
  message), the collections and their documents; the clock readings of the \<open>k\<close>-th article
  and the \<open>k\<close>-th subscriber conversion, the stack text of an error with a given message,
  and the destination's answers to the article and the subscriber batches.
\<close>

record mongo_source =
  connect_failure :: "string option"
  collection_names :: "string list"
  article_docs :: "mongo_doc list"
  subscriber_docs :: "mongo_doc list"

record runtime =
  article_clock :: "nat \<Rightarrow> clock"
  subscriber_clock :: "nat \<Rightarrow> nat"
  stack_of :: "string \<Rightarrow> string"
  articles_store :: "nat \<Rightarrow> verdict"
  subscribers_store :: "nat \<Rightarrow> verdict"

fun convert_subscribers :: "(nat \<Rightarrow> nat) \<Rightarrow> nat \<Rightarrow> mongo_doc list \<Rightarrow> supabase_subscriber list" where
  "convert_subscribers ck k [] = []"
| "convert_subscribers ck k (doc # docs) =
     convertSubscriber (ck k) doc # convert_subscribers ck (Suc k) docs"

definition migrateSubscribers :: "mongo_source \<Rightarrow> runtime \<Rightarrow> job \<Rightarrow> job" where
  "migrateSubscribers src rt st =
     (let st1 = log ''Starting migration of subscribers'' st;
          subscribers = subscriber_docs src;
          st2 = log (''Found '' @ dec (length subscribers) @ '' subscribers in MongoDB'') st1
      in if length subscribers = 0 then log ''No subscribers to migrate'' st2
         else
           (let supabaseSubscribers = convert_subscribers (subscriber_clock rt) 0 subscribers;
                st3 = subscribers_loop (subscribers_store rt) supabaseSubscribers 0
                        (st2\<lparr>successCount := 0, errorCount := 0\<rparr>)
            in log (''Subscribers migration completed: '' @ dec (successCount st3)
                      @ '' successfully processed, '' @ dec (errorCount st3) @ '' errors'') st3))"

text \<open>The \<open>catch\<close> and \<open>finally\<close> blocks of \<open>migrateData\<close>.\<close>

definition migration_error :: "runtime \<Rightarrow> string \<Rightarrow> job \<Rightarrow> job" where
  "migration_error rt message st =
     (let st1 = log (''Migration error: '' @ message) st
      in if stack_of rt message \<noteq> [] then log (stack_of rt message) st1 else st1)"

definition close_connection :: "job \<Rightarrow> job" where
  "close_connection st = log ''MongoDB connection closed'' st"

definition migrateData :: "mongo_source \<Rightarrow> runtime \<Rightarrow> job \<Rightarrow> job" where
  "migrateData src rt st =
     (let st1 = log ''Connecting to MongoDB...''
                  (log ''Starting migration from MongoDB to Supabase'' st)
      in case connect_failure src of
           Some message \<Rightarrow> close_connection (migration_error rt message st1)
         | None \<Rightarrow>
             (let st2 = log (''Found '' @ dec (length (collection_names src))
                               @ '' collections in MongoDB'')
                          (log ''Connected to MongoDB'' st1)
              in if ''articles'' \<notin> set (collection_names src)
                 then close_connection (log ''No articles collection found in MongoDB'' st2)
                 else
                   (let articles = article_docs src;
                        st3 = log (''Found '' @ dec (length articles) @ '' articles in MongoDB'') st2
                    in if length articles = 0
                       then close_connection (log ''No articles to migrate'' st3)
                       else
                         (case convert_all (article_clock rt) 0 articles of
                            Inl message \<Rightarrow> close_connection (migration_error rt message st3)
                          | Inr supabaseArticles \<Rightarrow>
                              (let st4 = log (''Converted '' @ dec (length supabaseArticles)
                                                @ '' articles to Supabase format'') st3;
                                   st5 = articles_loop (articles_store rt) supabaseArticles 0
                                           (st4\<lparr>successCount := 0, errorCount := 0\<rparr>);
                                   st6 = log (''Migration completed: '' @ dec (successCount st5)
                                                @ '' articles successfully processed, ''
                                                @ dec (errorCount st5) @ '' errors'') st5
                               in close_connection
                                    (if ''subscribers'' \<in> set (collection_names src)
                                     then migrateSubscribers src rt st6 else st6))))))"

definition new_job :: "supabase_article list \<Rightarrow> supabase_subscriber list \<Rightarrow> job" where
  "new_job arts subs =
     \<lparr>successCount = 0, errorCount = 0, logged = [], article_calls = [], subscriber_calls = [],
      articles_table = arts, subscribers_table = subs\<rparr>"

subsection \<open>Start-up\<close>

text \<open>
  The environment variables of the process. \<open>!process.env.X\<close> holds when the variable is
  not set or empty.
\<close>

definition missing :: "(string \<Rightarrow> string option) \<Rightarrow> string \<Rightarrow> bool" where
  "missing env name = (case env name of None \<Rightarrow> True | Some v \<Rightarrow> v = [])"

text \<open>How the top level of a module ends: \<open>process.exit(code)\<close>, or control goes on; with
  the lines written to the error console.\<close>

datatype startup =
    Exit nat "string list"
  | Proceed "string list"

text \<open>\<open>utils/supabase.js\<close>, evaluated when a module that imports it is loaded.\<close>

definition supabase_module :: "(string \<Rightarrow> string option) \<Rightarrow> startup" where
  "supabase_module env =
     (if missing env ''SUPABASE_URL'' \<or> missing env ''SUPABASE_KEY''
      then Exit 1 [''Missing required Supabase configuration. Please check your .env file.'']
      else Proceed [])"

text \<open>
  The top of the migration script after its imports (lines 14 to 23): without
  \<open>MONGODB_URI\<close> it calls \<open>process.exit(1)\<close>; without \<open>SUPABASE_SERVICE_KEY\<close> it writes two
  lines to the error console and goes on.
\<close>

definition migration_checks :: "(string \<Rightarrow> string option) \<Rightarrow> startup" where
  "migration_checks env =
     (if missing env ''MONGODB_URI''
      then Exit 1 [''Missing MONGODB_URI environment variable. Please add it to your .env file'']
      else if missing env ''SUPABASE_SERVICE_KEY''
      then Proceed
            [''Missing SUPABASE_SERVICE_KEY environment variable. Please add it to your .env file'',
             ''Migration will likely fail due to row level security restrictions.'']
      else Proceed [])"

text \<open>
  The migration script as a process. The imports of an ES module are linked before any
  module is evaluated, and the script imports the binding \<open>supabaseAdmin\<close> from
  \<open>utils/supabase.js\<close>, whose only export is the default one. So the script ends with an
  uncaught \<open>SyntaxError\<close>, exit code 1, before \<open>utils/supabase.js\<close> and the checks above are
  evaluated, whatever the environment. The other branch is the order of evaluation of a
  script whose imports link: the imported module, then the checks, then (after \<open>Proceed\<close>)
  the call of \<open>migrateData\<close>.
\<close>

definition supabase_exports :: "string list" where
  "supabase_exports = [''default'']"

definition migration_script :: "(string \<Rightarrow> string option) \<Rightarrow> startup" where
  "migration_script env =
     (if ''supabaseAdmin'' \<notin> set supabase_exports
      then Exit 1 [''SyntaxError: The requested module ../utils/supabase.js does not provide an export named supabaseAdmin'']
      else case supabase_module env of
             Exit code lines \<Rightarrow> Exit code lines
           | Proceed lines \<Rightarrow>
               (case migration_checks env of
                  Exit code rest \<Rightarrow> Exit code (lines @ rest)
                | Proceed rest \<Rightarrow> Proceed (lines @ rest)))"

text \<open>
  The servers. A server either exits before \<open>app.listen\<close> or listens; \<open>Listening\<close> carries
  the lines written to the error console on the way.
\<close>

datatype server_result =
    ServerExited nat
  | Listening "string list"

text \<open>The server that mounts the Supabase routes and the health routes: the routes import
  \<open>utils/supabase.js\<close>, and \<open>app.listen\<close> is reached only when that module did not exit.\<close>

definition server_startup :: "(string \<Rightarrow> string option) \<Rightarrow> server_result" where
  "server_startup env =
     (case supabase_module env of
        Exit code lines \<Rightarrow> ServerExited code
      | Proceed lines \<Rightarrow> Listening lines)"

text \<open>
  The server that connects through mongoose (\<open>server.js\<close> and its older version). It
  imports \<open>routes/articleRoutes.js\<close>; the repository has that file in two versions, one
  over the mongoose model, which reads no configuration, and one over the Supabase client,
  which imports \<open>utils/supabase.js\<close>. The server itself checks no variable:
  \<open>mongoose.connect(process.env.MONGODB_URI, \<dots>)\<close> returns a promise, a rejection is
  written to the error console by the \<open>catch\<close> handler, and \<open>app.listen\<close> follows in any
  case. \<open>connect uri\<close> is the error with which the promise is rejected, if it is.
\<close>

datatype routes_version = MongooseRoutes | SupabaseRoutes

definition articleRoutes_module :: "routes_version \<Rightarrow> (string \<Rightarrow> string option) \<Rightarrow> startup" where
  "articleRoutes_module version env =
     (case version of MongooseRoutes \<Rightarrow> Proceed [] | SupabaseRoutes \<Rightarrow> supabase_module env)"

definition mongoose_server_startup ::
  "routes_version \<Rightarrow> (string option \<Rightarrow> string option) \<Rightarrow> (string \<Rightarrow> string option)
     \<Rightarrow> server_result" where
  "mongoose_server_startup version connect env =
     (case articleRoutes_module version env of
        Exit code lines \<Rightarrow> ServerExited code
      | Proceed lines \<Rightarrow>
          Listening (lines @ (case connect (env ''MONGODB_URI'') of
                                None \<Rightarrow> []
                              | Some err \<Rightarrow> [''MongoDB connection error: '' @ err])))"

section \<open>Notions used in the statements\<close>

text \<open>
  The spec's fixed-size batches: the rows taken \<open>n\<close> at a time, in order.
\<close>

function batches :: "nat \<Rightarrow> 'a list \<Rightarrow> 'a list list" where
  "batches n xs = (if n = 0 \<or> xs = [] then [] else take n xs # batches n (drop n xs))"
  by pat_completeness auto
termination
  by (relation "measure (\<lambda>(n, xs). length xs)") auto

declare batches.simps [simp del]

text \<open>The upsert call that the article loop makes for a batch, and the one that the
  subscriber loop makes.\<close>

definition article_call :: "supabase_article list \<Rightarrow> supabase_article upsert_call" where
  "article_call b = \<lparr>call_table = ''articles'', call_rows = b, onConflict = ''slug'',
     ignoreDuplicates = False\<rparr>"

definition subscriber_call :: "supabase_subscriber list \<Rightarrow> supabase_subscriber upsert_call" where
  "subscriber_call b = \<lparr>call_table = ''subscribers'', call_rows = b, onConflict = ''email'',
     ignoreDuplicates = True\<rparr>"

text \<open>The number of rows in the batches that the store does not accept; the batches are
  counted from \<open>k\<close>.\<close>

definition failed_rows :: "(nat \<Rightarrow> verdict) \<Rightarrow> nat \<Rightarrow> 'a list list \<Rightarrow> nat" where
  "failed_rows store k bs =
     sum_list (map (\<lambda>(j, b). length b) (filter (\<lambda>(j, b). store j \<noteq> Accepted) (enumerate k bs)))"

text \<open>The summary that \<open>migrateData\<close> logs after the article loop, and the state in which
  the loop starts: six lines logged, both counters at zero.\<close>

definition summary_line :: "job \<Rightarrow> string" where
  "summary_line st = ''Migration completed: '' @ dec (successCount st)
     @ '' articles successfully processed, '' @ dec (errorCount st) @ '' errors''"

definition before_loop :: "mongo_source \<Rightarrow> nat \<Rightarrow> job \<Rightarrow> job" where
  "before_loop src n st =
     (log (''Converted '' @ dec n @ '' articles to Supabase format'')
       (log (''Found '' @ dec (length (article_docs src)) @ '' articles in MongoDB'')
         (log (''Found '' @ dec (length (collection_names src)) @ '' collections in MongoDB'')
           (log ''Connected to MongoDB''
             (log ''Connecting to MongoDB...''
               (log ''Starting migration from MongoDB to Supabase'' st))))))
     \<lparr>successCount := 0, errorCount := 0\<rparr>"

text \<open>The same for \<open>migrateSubscribers\<close>: its summary, and the state in which its loop
  starts.\<close>

definition subscribers_summary_line :: "job \<Rightarrow> string" where
  "subscribers_summary_line st = ''Subscribers migration completed: '' @ dec (successCount st)
     @ '' successfully processed, '' @ dec (errorCount st) @ '' errors''"

definition before_subscribers_loop :: "mongo_source \<Rightarrow> job \<Rightarrow> job" where
  "before_subscribers_loop src st =
     (log (''Found '' @ dec (length (subscriber_docs src)) @ '' subscribers in MongoDB'')
       (log ''Starting migration of subscribers'' st))
     \<lparr>successCount := 0, errorCount := 0\<rparr>"

text \<open>The rows that a run upserts when the store accepts every batch: none unless the run
  reaches the copy and the conversion raises no exception.\<close>

definition migrated_articles :: "mongo_source \<Rightarrow> runtime \<Rightarrow> supabase_article list" where
  "migrated_articles src rt =
     (if connect_failure src = None \<and> ''articles'' \<in> set (collection_names src)
         \<and> article_docs src \<noteq> []
      then (case convert_all (article_clock rt) 0 (article_docs src) of
              Inl e \<Rightarrow> [] | Inr rows \<Rightarrow> rows)
      else [])"

definition migrated_subscribers :: "mongo_source \<Rightarrow> runtime \<Rightarrow> supabase_subscriber list" where
  "migrated_subscribers src rt =
     (if connect_failure src = None \<and> ''articles'' \<in> set (collection_names src)
         \<and> article_docs src \<noteq> [] \<and> ''subscribers'' \<in> set (collection_names src)
      then (case convert_all (article_clock rt) 0 (article_docs src) of
              Inl e \<Rightarrow> []
            | Inr rows \<Rightarrow> convert_subscribers (subscriber_clock rt) 0 (subscriber_docs src))
      else [])"

section \<open>Example data\<close>

text \<open>A store that never fails, one that always fails, and three articles.\<close>

definition quiet_backend :: backend where
  "quiet_backend = \<lparr>special = (\<lambda>p s. False), other_limit = (\<lambda>n rows. []), fault = (\<lambda>q. None)\<rparr>"

definition failing_backend :: backend where
  "failing_backend = \<lparr>special = (\<lambda>p s. False), other_limit = (\<lambda>n rows. []),
     fault = (\<lambda>q. Some \<lparr>err_code = ''57014'', err_message = ''statement timeout''\<rparr>)\<rparr>"

definition ex_a1 :: article where
  "ex_a1 = \<lparr>art_id = 1, art_slug = ''bail-basics'', art_category = Some ''Criminal Law'',
     art_subcategory = Some ''Bail'', art_tags = [''Supreme Court'', ''bail''],
     art_published_date = 300\<rparr>"

definition ex_a2 :: article where
  "ex_a2 = \<lparr>art_id = 2, art_slug = ''custody-order'', art_category = Some ''family law'',
     art_subcategory = None, art_tags = [''Criminal Law''], art_published_date = 200\<rparr>"

definition ex_a3 :: article where
  "ex_a3 = \<lparr>art_id = 3, art_slug = ''tax-note'', art_category = Some ''Tax'',
     art_subcategory = Some ''criminal appeals'', art_tags = [''criminal law reform''],
     art_published_date = 100\<rparr>"

definition ex_articles :: "article list" where
  "ex_articles = [ex_a2, ex_a3, ex_a1]"

text \<open>An environment with the three required variables and without
  \<open>SUPABASE_SERVICE_KEY\<close>; an environment with every variable but \<open>MONGODB_URI\<close>, and a
  \<open>connect\<close> that is rejected when it is given no connection string; a runtime whose clock
  stands at \<open>t\<close> and whose destination accepts every batch, and one whose destination
  rejects the second article batch.\<close>

definition ex_env :: "string \<Rightarrow> string option" where
  "ex_env = [''SUPABASE_URL'' \<mapsto> ''https://db.example'', ''SUPABASE_KEY'' \<mapsto> ''anon'',
             ''MONGODB_URI'' \<mapsto> ''mongodb://localhost/law'']"

definition ex_env_no_mongodb :: "string \<Rightarrow> string option" where
  "ex_env_no_mongodb = [''SUPABASE_URL'' \<mapsto> ''https://db.example'', ''SUPABASE_KEY'' \<mapsto> ''anon'',
             ''SUPABASE_SERVICE_KEY'' \<mapsto> ''service'']"

definition ex_connect :: "string option \<Rightarrow> string option" where
  "ex_connect uri = (case uri of None \<Rightarrow> Some ''MongooseError: the uri parameter must be a string''
                     | Some u \<Rightarrow> None)"

definition ex_clock :: "nat \<Rightarrow> clock" where
  "ex_clock t = \<lparr>date_now = t, random_1000 = 7, new_date = t\<rparr>"

definition ex_runtime :: "nat \<Rightarrow> runtime" where
  "ex_runtime t = \<lparr>article_clock = (\<lambda>k. ex_clock t), subscriber_clock = (\<lambda>k. t),
     stack_of = (\<lambda>m. []), articles_store = (\<lambda>k. Accepted), subscribers_store = (\<lambda>k. Accepted)\<rparr>"


text \<open>A runtime whose destination rejects the second article batch and throws on the
  second subscriber batch.\<close>

definition ex_runtime_failing_both :: runtime where
  "ex_runtime_failing_both = \<lparr>article_clock = (\<lambda>k. ex_clock 1000), subscriber_clock = (\<lambda>k. 1000),
     stack_of = (\<lambda>m. []),
     articles_store = (\<lambda>k. if k = 1 then Rejected ''timeout'' [] else Accepted),
     subscribers_store = (\<lambda>k. if k = 1 then Threw ''fetch failed'' [] else Accepted)\<rparr>"

text \<open>Source databases: one article with only a title; thirty such articles and 21
  subscribers; two articles with slug and date and one subscriber.\<close>

definition ex_title_only :: mongo_doc where
  "ex_title_only = \<lparr>doc_id = None, props = [(''title'', JStr ''Hello World'')]\<rparr>"

definition ex_source :: mongo_source where
  "ex_source = \<lparr>connect_failure = None, collection_names = [''articles''],
     article_docs = [ex_title_only], subscriber_docs = []\<rparr>"

definition ex_source30 :: mongo_source where
  "ex_source30 = \<lparr>connect_failure = None, collection_names = [''articles'', ''subscribers''],
     article_docs = replicate 30 ex_title_only,
     subscriber_docs = replicate 21 \<lparr>doc_id = None, props = [(''email'', JStr ''a@b.example'')]\<rparr>\<rparr>"

definition ex_source2 :: mongo_source where
  "ex_source2 = \<lparr>connect_failure = None, collection_names = [''articles'', ''subscribers''],
     article_docs =
       [\<lparr>doc_id = Some ''65a1'', props = [(''title'', JStr ''Bail basics''),
           (''slug'', JStr ''bail-basics''), (''published_date'', JDate 500)]\<rparr>,
        \<lparr>doc_id = Some ''65a2'', props = [(''title'', JStr ''Custody order''),
           (''slug'', JStr ''custody-order''), (''published_date'', JDate 600)]\<rparr>],
     subscriber_docs = [\<lparr>doc_id = Some ''65b1'', props = [(''email'', JStr ''a@b.example'')]\<rparr>]\<rparr>"

section \<open>Properties of parseInt\<close>













subsection \<open>Rounding to a double\<close>




section \<open>Properties of the routes\<close>




lemma parseInt_examples:
  "parseInt [0xA0, 55] = Finite 7"
  "parseInt (units '' 0x1F'') = Finite 31"
  "parseInt (units ''12px'') = Finite 12"
  "parseInt (units ''9007199254740993'') = Finite 9007199254740992"
  "parseInt (units ''-'') = NaN"
  by (simp_all add: parseInt_def units_def isStrWhiteSpace_def stripSign_def isNegative_def
      hasHexPrefix_def isDigitOf_def digitOf_def numberOf_def nearest_double_def
      bit_length.simps Let_def)





lemma plain_char_toUpperChar: "plain_char c \<Longrightarrow> plain_char (toUpperChar c)"
  by (auto simp: plain_char_def toUpperChar_def isUpper_def isLower_def isDigit_def)

lemma split_all: "list_all P s \<Longrightarrow> list_all (list_all P) (split sep s)"
  by (induction s) (auto split: list.splits)

lemma join_all: "list_all (list_all P) ws \<Longrightarrow> list_all P sep \<Longrightarrow> list_all P (join sep ws)"
  by (induction sep ws rule: join.induct) auto

lemma capitalize_plain: "list_all plain_char w \<Longrightarrow> list_all plain_char (capitalize w)"
  by (cases w) (auto simp: plain_char_toUpperChar)

lemma plain_categoryName: "plain c \<Longrightarrow> plain (categoryName c)"
proof -
  assume "plain c"
  then have "list_all (list_all plain_char) (split CHR ''-'' c)"
    unfolding plain_def by (rule split_all)
  then have "list_all (list_all plain_char) (map capitalize (split CHR ''-'' c))"
    using capitalize_plain unfolding list_all_iff by auto
  moreover have "list_all plain_char '' ''" by (simp add: plain_char_def)
  ultimately show ?thesis
    unfolding plain_def categoryName_def by (rule join_all)
qed

lemma plain_singular: "plain n \<Longrightarrow> plain (singularCategory n)"
  by (auto simp: plain_def singularCategory_def list_all_iff dest: in_set_butlastD)

lemma plain_plural: "plain n \<Longrightarrow> plain (pluralCategory n)"
  by (auto simp: plain_def pluralCategory_def list_all_iff plain_char_def isLower_def)

lemma find_many_plain:
  "fault be q = None \<Longrightarrow> q_limit q = None \<Longrightarrow>
   find_many be q tab = Inr (order_desc (filter (holds be (q_filter q)) tab))"
  by (simp add: find_many_def apply_limit_def)

lemma order_desc_set: "set (order_desc rows) = set rows"
  by (simp add: order_desc_def)

lemma order_desc_distinct_ids:
  "distinct (map art_id rows) \<Longrightarrow> distinct (map art_id (order_desc rows))"
proof -
  assume d: "distinct (map art_id rows)"
  have "mset (map art_id (order_desc rows)) = mset (map art_id rows)"
    by (simp add: order_desc_def)
  then show ?thesis using d by (metis mset_eq_imp_distinct_iff)
qed

lemma filter_distinct_ids:
  "distinct (map art_id rows) \<Longrightarrow> distinct (map art_id (filter P rows))"
  by (rule distinct_map_filter)

lemma push_new_set: "set (push_new acc y) \<subseteq> insert y (set acc)"
  by (auto simp: push_new_def)

lemma push_new_ids: "art_id ` set (push_new acc y) = insert (art_id y) (art_id ` set acc)"
  by (auto simp: push_new_def list_ex_iff intro: rev_image_eqI)

lemma push_new_distinct:
  "distinct (map art_id acc) \<Longrightarrow> distinct (map art_id (push_new acc y))"
  by (auto simp: push_new_def list_ex_iff)

lemma push_new_keeps: "set acc \<subseteq> set (push_new acc y)"
  by (auto simp: push_new_def)

lemma combine_distinct:
  "distinct (map art_id xs) \<Longrightarrow> distinct (map art_id (combine xs ys))"
  unfolding combine_def
  by (induction ys arbitrary: xs) (simp_all add: push_new_distinct)

lemma combine_subset: "set (combine xs ys) \<subseteq> set xs \<union> set ys"
  unfolding combine_def
proof (induction ys arbitrary: xs)
  case Nil
  then show ?case by simp
next
  case (Cons y ys)
  have "set (foldl push_new (push_new xs y) ys) \<subseteq> set (push_new xs y) \<union> set ys"
    by (rule Cons.IH)
  with push_new_set[of xs y] show ?case by auto
qed

lemma combine_keeps: "set xs \<subseteq> set (combine xs ys)"
  unfolding combine_def
proof (induction ys arbitrary: xs)
  case Nil
  then show ?case by simp
next
  case (Cons y ys)
  have "set (push_new xs y) \<subseteq> set (foldl push_new (push_new xs y) ys)"
    by (rule Cons.IH)
  with push_new_keeps[of xs y] show ?case by auto
qed

lemma combine_ids: "art_id ` set (combine xs ys) = art_id ` (set xs \<union> set ys)"
  unfolding combine_def
proof (induction ys arbitrary: xs)
  case Nil
  then show ?case by simp
next
  case (Cons y ys)
  have "art_id ` set (foldl push_new (push_new xs y) ys) = art_id ` (set (push_new xs y) \<union> set ys)"
    by (rule Cons.IH)
  then show ?case by (simp add: image_Un push_new_ids)
qed

lemma combine_set:
  assumes "inj_on art_id (set xs \<union> set ys)"
  shows "set (combine xs ys) = set xs \<union> set ys"
proof
  show "set (combine xs ys) \<subseteq> set xs \<union> set ys" by (rule combine_subset)
  show "set xs \<union> set ys \<subseteq> set (combine xs ys)"
  proof
    fix a assume a: "a \<in> set xs \<union> set ys"
    then have "art_id a \<in> art_id ` set (combine xs ys)"
      by (simp only: combine_ids) (rule imageI)
    then obtain b where b: "b \<in> set (combine xs ys)" and e: "art_id a = art_id b" by auto
    from b combine_subset have "b \<in> set xs \<union> set ys" by blast
    with assms a e have "a = b" by (auto dest: inj_onD)
    with b show "a \<in> set (combine xs ys)" by simp
  qed
qed


lemma pattern_match_plain: "plain p \<Longrightarrow> pattern_match be p = ci_contains p"
  by (simp add: pattern_match_def fun_eq_iff)

lemma holds_category_query_mongoose:
  assumes "plain c"
  shows "holds be (q_filter (category_query_mongoose c)) =
         (\<lambda>a. category_matches (categoryName c) a \<or> tag_matches (categoryName c) a)"
proof -
  note n = plain_categoryName[OF assms]
  show ?thesis
    by (simp add: fun_eq_iff category_query_mongoose_def Let_def category_matches_def tag_matches_def
        pattern_match_plain[OF n] pattern_match_plain[OF plain_singular[OF n]]
        pattern_match_plain[OF plain_plural[OF n]] split: option.splits)
qed

lemma holds_category_query_supabase:
  assumes "plain c"
  shows "holds be (q_filter (category_query_supabase c)) = category_matches (categoryName c)"
proof -
  note n = plain_categoryName[OF assms]
  show ?thesis
    by (simp add: fun_eq_iff category_query_supabase_def Let_def category_matches_def
        pattern_match_plain[OF n] pattern_match_plain[OF plain_singular[OF n]]
        pattern_match_plain[OF plain_plural[OF n]] split: option.splits)
qed

lemma holds_tags_query_supabase:
  "holds be (q_filter (tags_query_supabase n)) = (\<lambda>a. n \<in> set (art_tags a))"
  by (simp add: tags_query_supabase_def fun_eq_iff)

lemma category_queries_no_limit:
  "q_limit (category_query_mongoose c) = None"
  "q_limit (category_query_supabase c) = None"
  "q_limit (tags_query_supabase n) = None"
  by (simp_all add: category_query_mongoose_def category_query_supabase_def
      tags_query_supabase_def Let_def)

lemma distinct_ids_inj: "distinct (map art_id tab) \<Longrightarrow> inj_on art_id (set tab)"
  by (simp add: distinct_map)

text \<open>
  Claim C3, as the code has it. For a category slug of letters, digits and hyphens, on a
  store that answers and whose rows have distinct ids: the mongoose variant returns, newest
  first, the articles whose category contains (case-insensitively) the formatted name, its
  singular or its plural, or one of whose tags contains the formatted name. The Supabase
  variant returns the articles with such a category, followed by the articles that have the
  formatted name itself among their tags (an exact element of the array) and are not there
  already. Neither result holds two rows with the same id.
\<close>

theorem category_route_result:
  assumes "plain c" and "\<forall>q. fault be q = None" and "distinct (map art_id tab)"
  shows "category_mongoose be c tab =
           Json (order_desc (filter (\<lambda>a. category_matches (categoryName c) a
                                          \<or> tag_matches (categoryName c) a) tab))
       \<and> category_supabase be c tab =
           Json (combine (order_desc (filter (category_matches (categoryName c)) tab))
                         (order_desc (filter (\<lambda>a. categoryName c \<in> set (art_tags a)) tab)))
       \<and> set (combine (order_desc (filter (category_matches (categoryName c)) tab))
                       (order_desc (filter (\<lambda>a. categoryName c \<in> set (art_tags a)) tab)))
           = {a \<in> set tab. category_matches (categoryName c) a
                            \<or> categoryName c \<in> set (art_tags a)}
       \<and> distinct (map art_id
            (combine (order_desc (filter (category_matches (categoryName c)) tab))
                     (order_desc (filter (\<lambda>a. categoryName c \<in> set (art_tags a)) tab))))
       \<and> distinct (map art_id
            (order_desc (filter (\<lambda>a. category_matches (categoryName c) a
                                      \<or> tag_matches (categoryName c) a) tab)))"
proof -
  let ?n = "categoryName c"
  let ?cat = "order_desc (filter (category_matches ?n) tab)"
  let ?tag = "order_desc (filter (\<lambda>a. ?n \<in> set (art_tags a)) tab)"
  have ok: "fault be q = None" for q using assms(2) by simp
  have m: "category_mongoose be c tab =
      Json (order_desc (filter (\<lambda>a. category_matches ?n a \<or> tag_matches ?n a) tab))"
    by (simp add: category_mongoose_def find_many_plain[OF ok category_queries_no_limit(1)]
        holds_category_query_mongoose[OF assms(1)])
  have q1: "find_many be (category_query_supabase c) tab = Inr ?cat"
    by (simp add: find_many_plain[OF ok category_queries_no_limit(2)]
        holds_category_query_supabase[OF assms(1)])
  have q2: "find_many be (tags_query_supabase ?n) tab = Inr ?tag"
    by (simp add: find_many_plain[OF ok category_queries_no_limit(3)] holds_tags_query_supabase)
  have s: "category_supabase be c tab = Json (combine ?cat ?tag)"
    by (simp add: category_supabase_def q1 q2)
  have sub: "set ?cat \<union> set ?tag \<subseteq> set tab"
    by (auto simp: order_desc_set)
  have "inj_on art_id (set ?cat \<union> set ?tag)"
    using distinct_ids_inj[OF assms(3)] sub by (rule inj_on_subset)
  then have "set (combine ?cat ?tag) = set ?cat \<union> set ?tag"
    by (rule combine_set)
  then have st: "set (combine ?cat ?tag) = {a \<in> set tab. category_matches ?n a \<or> ?n \<in> set (art_tags a)}"
    by (auto simp: order_desc_set)
  have d1: "distinct (map art_id (combine ?cat ?tag))"
    by (intro combine_distinct order_desc_distinct_ids filter_distinct_ids assms(3))
  have d2: "distinct (map art_id (order_desc (filter (\<lambda>a. category_matches ?n a \<or> tag_matches ?n a) tab)))"
    by (intro order_desc_distinct_ids filter_distinct_ids assms(3))
  from m s st d1 d2 show ?thesis by blast
qed


theorem category_route_result_witness:
  "plain ''criminal-law'' \<and> distinct (map art_id ex_articles)
   \<and> category_mongoose quiet_backend ''criminal-law'' ex_articles = Json [ex_a1, ex_a2, ex_a3]
   \<and> category_supabase quiet_backend ''criminal-law'' ex_articles = Json [ex_a1, ex_a2]"
proof -
  have h1: "plain ''criminal-law''" by code_simp
  have h2: "\<forall>q. fault quiet_backend q = None" by (simp add: quiet_backend_def)
  have h3: "distinct (map art_id ex_articles)"
    by (simp add: ex_articles_def ex_a1_def ex_a2_def ex_a3_def)
  have e1: "order_desc (filter (\<lambda>a. category_matches (categoryName ''criminal-law'') a
              \<or> tag_matches (categoryName ''criminal-law'') a) ex_articles) = [ex_a1, ex_a2, ex_a3]"
    by code_simp
  have e2: "combine (order_desc (filter (category_matches (categoryName ''criminal-law'')) ex_articles))
              (order_desc (filter (\<lambda>a. categoryName ''criminal-law'' \<in> set (art_tags a)) ex_articles))
            = [ex_a1, ex_a2]"
    by code_simp
  from category_route_result[OF h1 h2 h3] h1 h3 show ?thesis
    by (simp only: e1 e2; simp)
qed

text \<open>
  The claim as written fails for the Supabase variant: an article whose only link to the
  category is a tag that contains the name as a proper substring, in another case, is not
  returned.
\<close>

theorem category_tag_substring_counterexample:
  "category_supabase quiet_backend ''criminal-law'' ex_articles = Json [ex_a1, ex_a2]
   \<and> ex_a3 \<in> set ex_articles
   \<and> list_ex (ci_contains (categoryName ''criminal-law'')) (art_tags ex_a3)
   \<and> ex_a3 \<notin> set [ex_a1, ex_a2]"
  by code_simp

lemma order_desc_Nil_iff: "order_desc rows = [] \<longleftrightarrow> rows = []"
proof -
  have "length (order_desc rows) = length rows" by (simp add: order_desc_def)
  then show ?thesis by (metis length_0_conv)
qed

lemma holds_tag_queries:
  assumes "plain t"
  shows "holds be (q_filter (tag_primary_mongoose t)) = tag_matches t"
    and "holds be (q_filter (tag_fallback_mongoose t)) = category_or_subcategory_matches t"
    and "holds be (q_filter (tag_fallback_supabase t)) = category_or_subcategory_matches t"
  by (simp_all add: fun_eq_iff tag_primary_mongoose_def tag_fallback_mongoose_def
      tag_fallback_supabase_def tag_matches_def category_or_subcategory_matches_def
      field_matches_def pattern_match_plain[OF assms] split: option.splits)

lemma holds_tag_primary_supabase:
  "holds be (q_filter (tag_primary_supabase t)) = (\<lambda>a. t \<in> set (art_tags a))"
  by (simp add: fun_eq_iff tag_primary_supabase_def)

lemma tag_queries_no_limit:
  "q_limit (tag_primary_mongoose t) = None" "q_limit (tag_fallback_mongoose t) = None"
  "q_limit (tag_primary_supabase t) = None" "q_limit (tag_fallback_supabase t) = None"
  by (simp_all add: tag_primary_mongoose_def tag_fallback_mongoose_def
      tag_primary_supabase_def tag_fallback_supabase_def)

text \<open>
  Claim C5, as the code has it. For a decoded tag name of letters, digits, spaces and
  hyphens, on a store that answers: the mongoose variant first asks for the articles one of
  whose tags contains the name case-insensitively; the Supabase variant first asks for the
  articles that have the name itself among their tags. If and only if that first result is
  empty, a second query asks for the articles whose category or subcategory contains the
  name case-insensitively, and its result is returned alone; otherwise the first result is
  returned and no second query is sent.
\<close>

theorem tag_route_fallback:
  assumes "decodeURIComponent raw = Some t" and "plain t" and "\<forall>q. fault be q = None"
  shows "tag_mongoose decodeURIComponent be raw tab =
           (if filter (tag_matches t) tab = []
            then (Json (order_desc (filter (category_or_subcategory_matches t) tab)),
                  [tag_primary_mongoose t, tag_fallback_mongoose t])
            else (Json (order_desc (filter (tag_matches t) tab)), [tag_primary_mongoose t]))
       \<and> tag_supabase decodeURIComponent be raw tab =
           (if filter (\<lambda>a. t \<in> set (art_tags a)) tab = []
            then (Json (order_desc (filter (category_or_subcategory_matches t) tab)),
                  [tag_primary_supabase t, tag_fallback_supabase t])
            else (Json (order_desc (filter (\<lambda>a. t \<in> set (art_tags a)) tab)),
                  [tag_primary_supabase t]))"
proof -
  have ok: "fault be q = None" for q using assms(3) by simp
  have m1: "find_many be (tag_primary_mongoose t) tab = Inr (order_desc (filter (tag_matches t) tab))"
    by (simp add: find_many_plain[OF ok tag_queries_no_limit(1)] holds_tag_queries(1)[OF assms(2)])
  have m2: "find_many be (tag_fallback_mongoose t) tab =
      Inr (order_desc (filter (category_or_subcategory_matches t) tab))"
    by (simp add: find_many_plain[OF ok tag_queries_no_limit(2)] holds_tag_queries(2)[OF assms(2)])
  have s1: "find_many be (tag_primary_supabase t) tab =
      Inr (order_desc (filter (\<lambda>a. t \<in> set (art_tags a)) tab))"
    by (simp add: find_many_plain[OF ok tag_queries_no_limit(3)] holds_tag_primary_supabase)
  have s2: "find_many be (tag_fallback_supabase t) tab =
      Inr (order_desc (filter (category_or_subcategory_matches t) tab))"
    by (simp add: find_many_plain[OF ok tag_queries_no_limit(4)] holds_tag_queries(3)[OF assms(2)])
  show ?thesis
    by (simp add: tag_mongoose_def tag_supabase_def tag_route_def assms(1) m1 m2 s1 s2
        order_desc_Nil_iff)
qed

theorem tag_route_fallback_witness:
  "plain ''criminal''
   \<and> tag_mongoose Some quiet_backend ''criminal'' ex_articles
       = (Json [ex_a2, ex_a3], [tag_primary_mongoose ''criminal''])
   \<and> tag_supabase Some quiet_backend ''criminal'' ex_articles
       = (Json [ex_a1, ex_a3], [tag_primary_supabase ''criminal'', tag_fallback_supabase ''criminal''])"
proof -
  have h1: "Some ''criminal'' = Some ''criminal''" by simp
  have h2: "plain ''criminal''" by code_simp
  have h3: "\<forall>q. fault quiet_backend q = None" by (simp add: quiet_backend_def)
  have e1: "filter (tag_matches ''criminal'') ex_articles = [ex_a2, ex_a3]" by code_simp
  have e2: "filter (\<lambda>a. ''criminal'' \<in> set (art_tags a)) ex_articles = []" by code_simp
  have e3: "order_desc (filter (category_or_subcategory_matches ''criminal'') ex_articles) = [ex_a1, ex_a3]"
    by code_simp
  have e4: "order_desc [ex_a2, ex_a3] = [ex_a2, ex_a3]" by code_simp
  from tag_route_fallback[of Some "''criminal''" "''criminal''" quiet_backend ex_articles, OF h1 h2 h3] h2
  show ?thesis
    by (simp only: e1 e2 e3 e4; simp)
qed

text \<open>
  The claim as written fails for the Supabase variant: two articles have a tag that
  contains the name, yet the route finds no exact tag, sends the second query and returns
  the category and subcategory matches instead.
\<close>

theorem tag_exact_match_counterexample:
  "filter (tag_matches ''criminal'') ex_articles = [ex_a2, ex_a3]
   \<and> fst (tag_supabase Some quiet_backend ''criminal'' ex_articles) = Json [ex_a1, ex_a3]
   \<and> snd (tag_supabase Some quiet_backend ''criminal'' ex_articles)
       = [tag_primary_supabase ''criminal'', tag_fallback_supabase ''criminal'']"
  by code_simp

lemma holds_slug_query: "holds be (q_filter (slug_query s)) = (\<lambda>a. art_slug a = s)"
  by (simp add: slug_query_def fun_eq_iff)

text \<open>
  Claim C6. When the store answers, the lookup by slug returns one article whose slug is
  exactly the requested one, or 404 with the message "Article not found": the mongoose
  variant returns the first match, the Supabase variant the only match and 404 when there
  are none or several. A store error is a 500 with the store's message (for the Supabase
  variant, any error other than the "not a single row" code). The response is never a list
  of articles.
\<close>

theorem slug_lookup_outcomes:
  "(fault be (slug_query s) = None \<longrightarrow>
      slug_mongoose be s tab =
        (case filter (\<lambda>a. art_slug a = s) tab of
           [] \<Rightarrow> Status 404 ''Article not found'' | a # rest \<Rightarrow> JsonOne a)
      \<and> slug_supabase be s tab =
        (case filter (\<lambda>a. art_slug a = s) tab of
           [a] \<Rightarrow> JsonOne a | _ \<Rightarrow> Status 404 ''Article not found''))
   \<and> (\<forall>e. fault be (slug_query s) = Some e \<longrightarrow>
        slug_mongoose be s tab = Status 500 (err_message e)
        \<and> (err_code e \<noteq> ''PGRST116'' \<longrightarrow> slug_supabase be s tab = Status 500 (err_message e)))
   \<and> (\<forall>rows. slug_mongoose be s tab \<noteq> Json rows \<and> slug_supabase be s tab \<noteq> Json rows)
   \<and> (\<forall>a. slug_mongoose be s tab = JsonOne a \<or> slug_supabase be s tab = JsonOne a \<longrightarrow>
        a \<in> set tab \<and> art_slug a = s)"
proof -
  have in_filter: "a \<in> set tab \<and> art_slug a = s"
    if "filter (\<lambda>a. art_slug a = s) tab = a # rest" for a rest
  proof -
    from that have "a \<in> set (filter (\<lambda>a. art_slug a = s) tab)" by simp
    then show ?thesis by simp
  qed
  have p1: "fault be (slug_query s) = None \<longrightarrow>
      slug_mongoose be s tab =
        (case filter (\<lambda>a. art_slug a = s) tab of
           [] \<Rightarrow> Status 404 ''Article not found'' | a # rest \<Rightarrow> JsonOne a)
      \<and> slug_supabase be s tab =
        (case filter (\<lambda>a. art_slug a = s) tab of
           [a] \<Rightarrow> JsonOne a | _ \<Rightarrow> Status 404 ''Article not found'')"
    by (simp add: slug_mongoose_def slug_supabase_def findOne_def single_def holds_slug_query
        split: list.splits)
  have p2: "\<forall>e. fault be (slug_query s) = Some e \<longrightarrow>
        slug_mongoose be s tab = Status 500 (err_message e)
        \<and> (err_code e \<noteq> ''PGRST116'' \<longrightarrow> slug_supabase be s tab = Status 500 (err_message e))"
    by (simp add: slug_mongoose_def slug_supabase_def findOne_def single_def)
  have sup_fault: "slug_supabase be s tab =
      (if err_code e = ''PGRST116'' then Status 404 ''Article not found''
       else Status 500 (err_message e))"
    if "fault be (slug_query s) = Some e" for e
    using that by (simp add: slug_supabase_def single_def)
  have p3: "\<forall>rows. slug_mongoose be s tab \<noteq> Json rows \<and> slug_supabase be s tab \<noteq> Json rows"
  proof (cases "fault be (slug_query s)")
    case None
    with p1 show ?thesis by (simp split: list.splits)
  next
    case (Some e)
    with p2 sup_fault[OF Some] show ?thesis by simp
  qed
  have p4: "\<forall>a. slug_mongoose be s tab = JsonOne a \<or> slug_supabase be s tab = JsonOne a \<longrightarrow>
        a \<in> set tab \<and> art_slug a = s"
  proof (cases "fault be (slug_query s)")
    case None
    show ?thesis
    proof (cases "filter (\<lambda>a. art_slug a = s) tab")
      case Nil
      with p1 None show ?thesis by simp
    next
      case (Cons b rest)
      note bt = in_filter[OF Cons]
      with p1 None Cons show ?thesis by (cases rest) auto
    qed
  next
    case (Some e)
    with p2 sup_fault[OF Some] show ?thesis by simp
  qed
  from p1 p2 p3 p4 show ?thesis by blast
qed

theorem slug_lookup_outcomes_witness:
  "fault quiet_backend (slug_query ''tax-note'') = None
   \<and> slug_mongoose quiet_backend ''tax-note'' ex_articles = JsonOne ex_a3
   \<and> slug_supabase quiet_backend ''tax-note'' ex_articles = JsonOne ex_a3
   \<and> slug_mongoose quiet_backend ''tax'' ex_articles = Status 404 ''Article not found''
   \<and> slug_supabase quiet_backend ''tax'' ex_articles = Status 404 ''Article not found''
   \<and> slug_mongoose failing_backend ''tax-note'' ex_articles = Status 500 ''statement timeout''
   \<and> slug_supabase failing_backend ''tax-note'' ex_articles = Status 500 ''statement timeout''"
proof -
  have q: "fault quiet_backend (slug_query x) = None" for x by (simp add: quiet_backend_def)
  have f: "fault failing_backend (slug_query ''tax-note'')
      = Some \<lparr>err_code = ''57014'', err_message = ''statement timeout''\<rparr>"
    by (simp add: failing_backend_def)
  have e1: "filter (\<lambda>a. art_slug a = ''tax-note'') ex_articles = [ex_a3]"
    by (simp add: ex_articles_def ex_a1_def ex_a2_def ex_a3_def)
  have e2: "filter (\<lambda>a. art_slug a = ''tax'') ex_articles = []"
    by (simp add: ex_articles_def ex_a1_def ex_a2_def ex_a3_def)
  note found = slug_lookup_outcomes[of quiet_backend "''tax-note''" ex_articles,
      THEN conjunct1, rule_format, OF q]
  note missing = slug_lookup_outcomes[of quiet_backend "''tax''" ex_articles,
      THEN conjunct1, rule_format, OF q]
  note failed = slug_lookup_outcomes[of failing_backend "''tax-note''" ex_articles,
      THEN conjunct2, THEN conjunct1, rule_format, OF f]
  have c: "err_code \<lparr>err_code = ''57014'', err_message = ''statement timeout''\<rparr> \<noteq> ''PGRST116''"
    by simp
  from found have r1: "slug_mongoose quiet_backend ''tax-note'' ex_articles = JsonOne ex_a3"
      and r2: "slug_supabase quiet_backend ''tax-note'' ex_articles = JsonOne ex_a3"
    by (simp_all only: e1 list.case)
  from missing have r3: "slug_mongoose quiet_backend ''tax'' ex_articles = Status 404 ''Article not found''"
      and r4: "slug_supabase quiet_backend ''tax'' ex_articles = Status 404 ''Article not found''"
    by (simp_all only: e2 list.case)
  from failed have r5: "slug_mongoose failing_backend ''tax-note'' ex_articles = Status 500 ''statement timeout''"
    by simp
  from failed c have r6: "slug_supabase failing_backend ''tax-note'' ex_articles = Status 500 ''statement timeout''"
    by simp
  from q r1 r2 r3 r4 r5 r6 show ?thesis by blast
qed

section \<open>Properties of the migration job\<close>

subsection \<open>The conversion and the start-up\<close>

lemma doc_get_title_only:
  "doc_get \<lparr>doc_id = i, props = [(''title'', v)]\<rparr> k = (if k = ''title'' then v else JUndefined)"
  by (simp add: doc_get_def)

text \<open>
  Claim C1 at a source record with only \<open>title\<close> set. The author, category, featured
  flag and tags get their defaults, but the excerpt is not the empty string: with no
  content, \<open>doc.content?.substring(0, 150)\<close> is \<open>undefined\<close>, the concatenation with the
  ellipsis gives the truthy string \<open>"undefined..."\<close>, and the final \<open>|| ''\<close> never applies.
\<close>

theorem convert_title_only:
  "map_sum id (\<lambda>r. (author r, category r, is_featured r, tags r, excerpt r))
     (convertDocumentToSupabaseFormat ck \<lparr>doc_id = i, props = [(''title'', v)]\<rparr>)
   = Inr (JStr ''Unknown'', JStr ''Uncategorized'', JBool False, JArr [], JStr ''undefined...'')"
  by (simp add: convertDocumentToSupabaseFormat_def excerpt_of_def doc_get_title_only
      content_substring_def plus_string_def or_else_def)

lemma excerpt_of_cases:
  "\<not> truthy (doc_get doc ''excerpt'') \<Longrightarrow> doc_get doc ''content'' = JStr s \<Longrightarrow>
     excerpt_of doc = Inr (JStr (take 150 s @ ''...''))"
  "\<not> truthy (doc_get doc ''excerpt'') \<Longrightarrow> doc_get doc ''content'' = JUndefined \<Longrightarrow>
     excerpt_of doc = Inr (JStr ''undefined...'')"
  by (simp_all add: excerpt_of_def content_substring_def plus_string_def or_else_def)

text \<open>
  Claim C7, as the code has it. An absent (or empty) \<open>SUPABASE_URL\<close> or \<open>SUPABASE_KEY\<close>
  ends the process with exit code 1 when the Supabase client module is loaded: the server
  that mounts the Supabase routes never listens, and with these present it does. The
  migration script does not reach the copy when \<open>SUPABASE_URL\<close>, \<open>SUPABASE_KEY\<close> or
  \<open>MONGODB_URI\<close> is absent: it exits with code 1. Its own check ends the process for an
  absent \<open>MONGODB_URI\<close> and only writes two lines for an absent \<open>SUPABASE_SERVICE_KEY\<close>.
  The server that connects through mongoose checks no variable: over the mongoose routes it
  listens in every environment, also without \<open>MONGODB_URI\<close>, and over the Supabase routes
  it listens exactly when \<open>SUPABASE_URL\<close> and \<open>SUPABASE_KEY\<close> are there.
\<close>

theorem startup_checks:
  "(missing env ''SUPABASE_URL'' \<or> missing env ''SUPABASE_KEY'' \<longrightarrow>
      server_startup env = ServerExited 1)
   \<and> (\<not> missing env ''SUPABASE_URL'' \<and> \<not> missing env ''SUPABASE_KEY'' \<longrightarrow>
        server_startup env = Listening [])
   \<and> (missing env ''SUPABASE_URL'' \<or> missing env ''SUPABASE_KEY'' \<or> missing env ''MONGODB_URI''
        \<longrightarrow> (\<exists>lines. migration_script env = Exit 1 lines))
   \<and> (missing env ''MONGODB_URI'' \<longrightarrow>
        migration_checks env
        = Exit 1 [''Missing MONGODB_URI environment variable. Please add it to your .env file''])
   \<and> (\<not> missing env ''MONGODB_URI'' \<and> missing env ''SUPABASE_SERVICE_KEY'' \<longrightarrow>
        migration_checks env
        = Proceed
            [''Missing SUPABASE_SERVICE_KEY environment variable. Please add it to your .env file'',
             ''Migration will likely fail due to row level security restrictions.''])
   \<and> mongoose_server_startup MongooseRoutes connect env
        = Listening (case connect (env ''MONGODB_URI'') of
                       None \<Rightarrow> [] | Some err \<Rightarrow> [''MongoDB connection error: '' @ err])
   \<and> (missing env ''SUPABASE_URL'' \<or> missing env ''SUPABASE_KEY'' \<longrightarrow>
        mongoose_server_startup SupabaseRoutes connect env = ServerExited 1)
   \<and> (\<not> missing env ''SUPABASE_URL'' \<and> \<not> missing env ''SUPABASE_KEY'' \<longrightarrow>
        mongoose_server_startup SupabaseRoutes connect env
        = Listening (case connect (env ''MONGODB_URI'') of
                       None \<Rightarrow> [] | Some err \<Rightarrow> [''MongoDB connection error: '' @ err]))"
  by (simp add: server_startup_def migration_script_def migration_checks_def supabase_module_def
      supabase_exports_def mongoose_server_startup_def articleRoutes_module_def)

theorem startup_checks_witness:
  "missing (ex_env(''SUPABASE_KEY'' := None)) ''SUPABASE_KEY''
   \<and> server_startup (ex_env(''SUPABASE_KEY'' := None)) = ServerExited 1
   \<and> mongoose_server_startup SupabaseRoutes ex_connect (ex_env(''SUPABASE_KEY'' := None))
       = ServerExited 1
   \<and> (\<exists>lines. migration_script (ex_env(''SUPABASE_KEY'' := None)) = Exit 1 lines)
   \<and> missing (ex_env(''MONGODB_URI'' := None)) ''MONGODB_URI''
   \<and> (\<exists>lines. migration_script (ex_env(''MONGODB_URI'' := None)) = Exit 1 lines)
   \<and> migration_checks (ex_env(''MONGODB_URI'' := None))
       = Exit 1 [''Missing MONGODB_URI environment variable. Please add it to your .env file'']
   \<and> \<not> missing ex_env ''SUPABASE_URL'' \<and> \<not> missing ex_env ''SUPABASE_KEY''
   \<and> \<not> missing ex_env ''MONGODB_URI'' \<and> missing ex_env ''SUPABASE_SERVICE_KEY''
   \<and> server_startup ex_env = Listening []
   \<and> mongoose_server_startup SupabaseRoutes ex_connect ex_env = Listening []
   \<and> migration_checks ex_env
       = Proceed
           [''Missing SUPABASE_SERVICE_KEY environment variable. Please add it to your .env file'',
            ''Migration will likely fail due to row level security restrictions.'']"
proof -
  have m1: "missing (ex_env(''SUPABASE_KEY'' := None)) ''SUPABASE_KEY''"
    by (simp add: missing_def)
  have m2: "missing (ex_env(''MONGODB_URI'' := None)) ''MONGODB_URI''"
    by (simp add: missing_def)
  have p: "\<not> missing ex_env ''SUPABASE_URL''" "\<not> missing ex_env ''SUPABASE_KEY''"
      "\<not> missing ex_env ''MONGODB_URI''" "missing ex_env ''SUPABASE_SERVICE_KEY''"
    by (simp_all add: missing_def ex_env_def)
  have c: "ex_connect (ex_env ''MONGODB_URI'') = None"
    by (simp add: ex_connect_def ex_env_def)
  from startup_checks[of "ex_env(''SUPABASE_KEY'' := None)" ex_connect]
    startup_checks[of "ex_env(''MONGODB_URI'' := None)" ex_connect]
    startup_checks[of ex_env ex_connect]
    m1 m2 p c
  show ?thesis by simp
qed

text \<open>
  The claim as written fails for the source connection string of the server that connects
  through mongoose: without \<open>MONGODB_URI\<close>, and with every other variable set, the
  rejected connection is written to the error console and the server listens, whichever
  version of the routes it mounts.
\<close>

theorem mongoose_server_counterexample:
  "missing ex_env_no_mongodb ''MONGODB_URI''
   \<and> mongoose_server_startup MongooseRoutes ex_connect ex_env_no_mongodb
       = Listening [''MongoDB connection error: MongooseError: the uri parameter must be a string'']
   \<and> mongoose_server_startup SupabaseRoutes ex_connect ex_env_no_mongodb
       = Listening [''MongoDB connection error: MongooseError: the uri parameter must be a string'']"
  by (simp add: missing_def ex_env_no_mongodb_def ex_connect_def mongoose_server_startup_def
      articleRoutes_module_def supabase_module_def)

subsection \<open>Batches\<close>

lemma batches_Nil [simp]: "batches n [] = []"
  by (simp add: batches.simps)

lemma batches_step: "0 < n \<Longrightarrow> xs \<noteq> [] \<Longrightarrow> batches n xs = take n xs # batches n (drop n xs)"
  by (subst batches.simps) simp





lemma ceil_div_step: "0 < n \<Longrightarrow> 0 < m \<Longrightarrow> ceil_div m n = Suc (ceil_div (m - n) n)"
proof (cases "n \<le> m")
  case True
  assume n: "0 < n" and m: "0 < m"
  define k where "k = m - n + n - 1"
  from True n have e: "m + n - 1 = k + n" by (simp add: k_def)
  from n have "n \<noteq> 0" by simp
  then have "(k + n) div n = k div n + 1" by (rule div_add_self2)
  with e show ?thesis by (simp add: ceil_div_def k_def)
next
  case False
  assume n: "0 < n" and m: "0 < m"
  from False have z: "m - n = 0" by simp
  from False n m have "(m + n - 1) div n = 1"
    by (intro div_nat_eqI) simp_all
  moreover have "(n - 1) div n = 0" using n by simp
  ultimately show ?thesis by (simp add: ceil_div_def z)
qed

lemma length_batches: "0 < n \<Longrightarrow> length (batches n xs) = ceil_div (length xs) n"
proof (induction n xs rule: batches.induct)
  case (1 n xs)
  note n = \<open>0 < n\<close>
  show ?case
  proof (cases "xs = []")
    case True
    with n show ?thesis by (simp add: ceil_div_def)
  next
    case False
    then have pos: "0 < length xs" by simp
    have c: "\<not> (n = 0 \<or> xs = [])" using n False by simp
    have ih: "length (batches n (drop n xs)) = ceil_div (length (drop n xs)) n"
      by (rule 1(1)[OF c n])
    have "length (batches n xs) = Suc (ceil_div (length xs - n) n)"
      by (simp add: batches_step[OF n False] ih)
    with ceil_div_step[OF n pos] show ?thesis by simp
  qed
qed

subsection \<open>One batch\<close>

lemma slice_batch: "slice i (i + n) xs = take n (drop i xs)"
  by (simp add: slice_def)

lemma articles_batch_calls:
  "article_calls (articles_batch store rows i st)
   = article_calls st @ [article_call (take batchSize (drop i rows))]"
  by (simp add: articles_batch_def Let_def log_def slice_batch article_call_def
      split: verdict.splits)

lemma articles_batch_errors:
  "errorCount (articles_batch store rows i st)
   = errorCount st + (if store (i div batchSize) = Accepted then 0
                      else length (take batchSize (drop i rows)))"
  by (simp add: articles_batch_def Let_def log_def slice_batch split: verdict.splits)

lemma articles_batch_successes:
  "successCount (articles_batch store rows i st)
   = successCount st + (if store (i div batchSize) = Accepted
                        then length (take batchSize (drop i rows)) else 0)"
  by (simp add: articles_batch_def Let_def log_def slice_batch split: verdict.splits)

lemma articles_batch_table:
  "articles_table (articles_batch store rows i st)
   = (if store (i div batchSize) = Accepted
      then upsert slug False (articles_table st) (take batchSize (drop i rows))
      else articles_table st)"
  by (simp add: articles_batch_def Let_def log_def slice_batch split: verdict.splits)

lemma articles_batch_other:
  "subscribers_table (articles_batch store rows i st) = subscribers_table st"
  "subscriber_calls (articles_batch store rows i st) = subscriber_calls st"
  by (simp_all add: articles_batch_def Let_def log_def split: verdict.splits)

lemma articles_batch_logged_mono:
  "set (logged st) \<subseteq> set (logged (articles_batch store rows i st))"
  by (auto simp: articles_batch_def Let_def log_def split: verdict.splits)

lemma articles_batch_error_line:
  "store (i div batchSize) = Rejected m d \<Longrightarrow>
     (''Error in batch '' @ dec (i div batchSize + 1) @ '': '' @ m)
       \<in> set (logged (articles_batch store rows i st))"
  "store (i div batchSize) = Threw m t \<Longrightarrow>
     (''Exception in batch '' @ dec (i div batchSize + 1) @ '': '' @ m)
       \<in> set (logged (articles_batch store rows i st))"
  by (simp_all add: articles_batch_def Let_def log_def)

subsection \<open>The article loop\<close>

lemma articles_loop_done:
  "\<not> i < length rows \<Longrightarrow> articles_loop store rows i st = st"
  by (subst articles_loop.simps) simp

lemma articles_loop_step:
  "i < length rows \<Longrightarrow>
   articles_loop store rows i st
   = articles_loop store rows (i + batchSize) (articles_batch store rows i st)"
  by (subst articles_loop.simps) simp

lemma batchSize_pos: "0 < batchSize" "0 < subscribers_batchSize"
  by (simp_all add: batchSize_def subscribers_batchSize_def)

lemma batches_drop_step:
  assumes "0 < n" and "i < length xs"
  shows "batches n (drop i xs) = take n (drop i xs) # batches n (drop (i + n) xs)"
proof -
  from assms(2) have "drop i xs \<noteq> []" by simp
  from batches_step[OF assms(1) this] show ?thesis by (simp add: add.commute)
qed

lemma articles_loop_calls:
  "article_calls (articles_loop store rows i st)
   = article_calls st @ map article_call (batches batchSize (drop i rows))"
proof (induction store rows i st rule: articles_loop.induct)
  case (1 store rows i st)
  show ?case
  proof (cases "i < length rows")
    case True
    from 1[OF True] show ?thesis
      by (simp add: articles_loop_step[OF True] articles_batch_calls
          batches_drop_step[OF batchSize_pos(1) True])
  next
    case False
    then show ?thesis by (simp add: articles_loop_done)
  qed
qed

lemma articles_loop_counts:
  "successCount (articles_loop store rows i st) + errorCount (articles_loop store rows i st)
   = successCount st + errorCount st + (length rows - i)"
proof (induction store rows i st rule: articles_loop.induct)
  case (1 store rows i st)
  show ?case
  proof (cases "i < length rows")
    case True
    have "min (length rows - i) batchSize + (length rows - (i + batchSize)) = length rows - i"
      by arith
    with 1[OF True] show ?thesis
      by (simp add: articles_loop_step[OF True] articles_batch_errors articles_batch_successes)
  next
    case False
    then show ?thesis by (simp add: articles_loop_done)
  qed
qed

lemma failed_rows_Cons:
  "failed_rows store k (b # bs)
   = (if store k = Accepted then 0 else length b) + failed_rows store (Suc k) bs"
  by (simp add: failed_rows_def)

lemma articles_loop_errors:
  "i = batchSize * k \<Longrightarrow>
   errorCount (articles_loop store rows i st)
   = errorCount st + failed_rows store k (batches batchSize (drop i rows))"
proof (induction store rows i st arbitrary: k rule: articles_loop.induct)
  case (1 store rows i st)
  show ?case
  proof (cases "i < length rows")
    case True
    have d: "i div batchSize = k" using 1(2) batchSize_pos(1) by simp
    have n: "i + batchSize = batchSize * Suc k" using 1(2) by simp
    from 1(1)[OF True n] show ?thesis
      by (simp add: articles_loop_step[OF True] articles_batch_errors d
          batches_drop_step[OF batchSize_pos(1) True] failed_rows_Cons)
  next
    case False
    then show ?thesis by (simp add: articles_loop_done failed_rows_def)
  qed
qed

lemma upsert_append: "upsert key ig T (xs @ ys) = upsert key ig (upsert key ig T xs) ys"
  by (simp add: upsert_def)

lemma articles_loop_table:
  "\<forall>k. store k = Accepted \<Longrightarrow>
   articles_table (articles_loop store rows i st) = upsert slug False (articles_table st) (drop i rows)"
proof (induction store rows i st rule: articles_loop.induct)
  case (1 store rows i st)
  show ?case
  proof (cases "i < length rows")
    case True
    have "drop batchSize (drop i rows) = drop (i + batchSize) rows"
      by (simp add: add.commute)
    with append_take_drop_id[of batchSize "drop i rows"]
    have "drop i rows = take batchSize (drop i rows) @ drop (i + batchSize) rows"
      by simp
    then have "upsert slug False (articles_table st) (drop i rows)
      = upsert slug False (upsert slug False (articles_table st) (take batchSize (drop i rows)))
          (drop (i + batchSize) rows)"
      by (metis upsert_append)
    note eq = this
    from 1(2) have acc: "store (i div batchSize) = Accepted" by simp
    have ih: "articles_table (articles_loop store rows (i + batchSize) (articles_batch store rows i st))
        = upsert slug False (articles_table (articles_batch store rows i st)) (drop (i + batchSize) rows)"
      by (rule 1(1)[OF True 1(2)])
    have bt: "articles_table (articles_batch store rows i st)
        = upsert slug False (articles_table st) (take batchSize (drop i rows))"
      by (simp add: articles_batch_table acc)
    show ?thesis
      by (simp only: articles_loop_step[OF True] ih bt eq)
  next
    case False
    then show ?thesis by (simp add: articles_loop_done upsert_def)
  qed
qed

lemma articles_loop_other:
  "subscribers_table (articles_loop store rows i st) = subscribers_table st"
  "subscriber_calls (articles_loop store rows i st) = subscriber_calls st"
proof (induction store rows i st rule: articles_loop.induct)
  case (1 store rows i st)
  {
    case 1
    show ?case
    proof (cases "i < length rows")
      case True
      with "1.IH"(1) show ?thesis
        by (simp add: articles_loop_step[OF True] articles_batch_other)
    next
      case False
      then show ?thesis by (simp add: articles_loop_done)
    qed
  next
    case 2
    show ?case
    proof (cases "i < length rows")
      case True
      with "1.IH"(2) show ?thesis
        by (simp add: articles_loop_step[OF True] articles_batch_other)
    next
      case False
      then show ?thesis by (simp add: articles_loop_done)
    qed
  }
qed

lemma articles_loop_logged_mono:
  "set (logged st) \<subseteq> set (logged (articles_loop store rows i st))"
proof (induction store rows i st rule: articles_loop.induct)
  case (1 store rows i st)
  show ?case
  proof (cases "i < length rows")
    case True
    from 1[OF True] articles_batch_logged_mono[of st store rows i] show ?thesis
      by (simp only: articles_loop_step[OF True]; blast)
  next
    case False
    then show ?thesis by (simp add: articles_loop_done)
  qed
qed

lemma articles_loop_error_line:
  "batchSize * k < length rows \<Longrightarrow> i = batchSize * j \<Longrightarrow> j \<le> k \<Longrightarrow>
    (store k = Rejected m d \<longrightarrow>
       (''Error in batch '' @ dec (k + 1) @ '': '' @ m)
         \<in> set (logged (articles_loop store rows i st)))
    \<and> (store k = Threw m d \<longrightarrow>
       (''Exception in batch '' @ dec (k + 1) @ '': '' @ m)
         \<in> set (logged (articles_loop store rows i st)))"
proof (induction store rows i st arbitrary: j rule: articles_loop.induct)
  case (1 store rows i st)
  have "i \<le> batchSize * k" using 1(3,4) by simp
  with 1(2) have True: "i < length rows" by simp
  note step = articles_loop_step[OF True]
  have d: "i div batchSize = j" using 1(3) batchSize_pos(1) by simp
  show ?case
  proof (cases "j = k")
    case True
    with d have dk: "i div batchSize = k" by simp
    have mono: "set (logged (articles_batch store rows i st))
        \<subseteq> set (logged (articles_loop store rows i st))"
      by (simp only: step) (rule articles_loop_logged_mono)
    from articles_batch_error_line[of store i, unfolded dk] mono show ?thesis by blast
  next
    case False
    with 1(4) have le: "Suc j \<le> k" by simp
    have n: "i + batchSize = batchSize * Suc j" using 1(3) by simp
    from 1(1)[OF \<open>i < length rows\<close> 1(2) n le] show ?thesis
      by (simp only: step)
  qed
qed

subsection \<open>The subscriber loop\<close>

lemma subscribers_batch_calls:
  "subscriber_calls (subscribers_batch store rows i st)
   = subscriber_calls st @ [subscriber_call (take subscribers_batchSize (drop i rows))]"
  by (simp add: subscribers_batch_def Let_def log_def slice_batch subscriber_call_def
      split: verdict.splits)

lemma subscribers_batch_table:
  "subscribers_table (subscribers_batch store rows i st)
   = (if store (i div subscribers_batchSize) = Accepted
      then upsert email True (subscribers_table st) (take subscribers_batchSize (drop i rows))
      else subscribers_table st)"
  by (simp add: subscribers_batch_def Let_def log_def slice_batch split: verdict.splits)

lemma subscribers_batch_other:
  "articles_table (subscribers_batch store rows i st) = articles_table st"
  "article_calls (subscribers_batch store rows i st) = article_calls st"
  by (simp_all add: subscribers_batch_def Let_def log_def split: verdict.splits)

lemma subscribers_batch_logged_mono:
  "set (logged st) \<subseteq> set (logged (subscribers_batch store rows i st))"
  by (auto simp: subscribers_batch_def Let_def log_def split: verdict.splits)

lemma subscribers_loop_done:
  "\<not> i < length rows \<Longrightarrow> subscribers_loop store rows i st = st"
  by (subst subscribers_loop.simps) simp

lemma subscribers_loop_step:
  "i < length rows \<Longrightarrow>
   subscribers_loop store rows i st
   = subscribers_loop store rows (i + subscribers_batchSize) (subscribers_batch store rows i st)"
  by (subst subscribers_loop.simps) simp

lemma subscribers_loop_calls:
  "subscriber_calls (subscribers_loop store rows i st)
   = subscriber_calls st @ map subscriber_call (batches subscribers_batchSize (drop i rows))"
proof (induction store rows i st rule: subscribers_loop.induct)
  case (1 store rows i st)
  show ?case
  proof (cases "i < length rows")
    case True
    from 1[OF True] show ?thesis
      by (simp add: subscribers_loop_step[OF True] subscribers_batch_calls
          batches_drop_step[OF batchSize_pos(2) True])
  next
    case False
    then show ?thesis by (simp add: subscribers_loop_done)
  qed
qed

lemma subscribers_loop_table:
  "\<forall>k. store k = Accepted \<Longrightarrow>
   subscribers_table (subscribers_loop store rows i st)
   = upsert email True (subscribers_table st) (drop i rows)"
proof (induction store rows i st rule: subscribers_loop.induct)
  case (1 store rows i st)
  show ?case
  proof (cases "i < length rows")
    case True
    have "drop subscribers_batchSize (drop i rows) = drop (i + subscribers_batchSize) rows"
      by (simp add: add.commute)
    with append_take_drop_id[of subscribers_batchSize "drop i rows"]
    have "drop i rows = take subscribers_batchSize (drop i rows)
        @ drop (i + subscribers_batchSize) rows"
      by simp
    then have eq: "upsert email True (subscribers_table st) (drop i rows)
      = upsert email True
          (upsert email True (subscribers_table st) (take subscribers_batchSize (drop i rows)))
          (drop (i + subscribers_batchSize) rows)"
      by (metis upsert_append)
    from 1(2) have acc: "store (i div subscribers_batchSize) = Accepted" by simp
    have ih: "subscribers_table (subscribers_loop store rows (i + subscribers_batchSize)
          (subscribers_batch store rows i st))
        = upsert email True (subscribers_table (subscribers_batch store rows i st))
            (drop (i + subscribers_batchSize) rows)"
      by (rule 1(1)[OF True 1(2)])
    have bt: "subscribers_table (subscribers_batch store rows i st)
        = upsert email True (subscribers_table st) (take subscribers_batchSize (drop i rows))"
      by (simp add: subscribers_batch_table acc)
    show ?thesis
      by (simp only: subscribers_loop_step[OF True] ih bt eq)
  next
    case False
    then show ?thesis by (simp add: subscribers_loop_done upsert_def)
  qed
qed

lemma subscribers_loop_articles_table:
  "articles_table (subscribers_loop store rows i st) = articles_table st"
proof (induction store rows i st rule: subscribers_loop.induct)
  case (1 store rows i st)
  show ?case
  proof (cases "i < length rows")
    case True
    with 1 show ?thesis
      by (simp add: subscribers_loop_step[OF True] subscribers_batch_other)
  next
    case False
    then show ?thesis by (simp add: subscribers_loop_done)
  qed
qed

lemma subscribers_loop_article_calls:
  "article_calls (subscribers_loop store rows i st) = article_calls st"
proof (induction store rows i st rule: subscribers_loop.induct)
  case (1 store rows i st)
  show ?case
  proof (cases "i < length rows")
    case True
    with 1 show ?thesis
      by (simp add: subscribers_loop_step[OF True] subscribers_batch_other)
  next
    case False
    then show ?thesis by (simp add: subscribers_loop_done)
  qed
qed

lemma subscribers_loop_logged_mono:
  "set (logged st) \<subseteq> set (logged (subscribers_loop store rows i st))"
proof (induction store rows i st rule: subscribers_loop.induct)
  case (1 store rows i st)
  show ?case
  proof (cases "i < length rows")
    case True
    from 1[OF True] subscribers_batch_logged_mono[of st store rows i] show ?thesis
      by (simp only: subscribers_loop_step[OF True]; blast)
  next
    case False
    then show ?thesis by (simp add: subscribers_loop_done)
  qed
qed

lemma subscribers_batch_errors:
  "errorCount (subscribers_batch store rows i st)
   = errorCount st + (if store (i div subscribers_batchSize) = Accepted then 0
                      else length (take subscribers_batchSize (drop i rows)))"
  by (simp add: subscribers_batch_def Let_def log_def slice_batch split: verdict.splits)

lemma subscribers_batch_successes:
  "successCount (subscribers_batch store rows i st)
   = successCount st + (if store (i div subscribers_batchSize) = Accepted
                        then length (take subscribers_batchSize (drop i rows)) else 0)"
  by (simp add: subscribers_batch_def Let_def log_def slice_batch split: verdict.splits)

lemma subscribers_batch_error_line:
  "store (i div subscribers_batchSize) = Rejected m d \<Longrightarrow>
     (''Error in subscribers batch '' @ dec (i div subscribers_batchSize + 1) @ '': '' @ m)
       \<in> set (logged (subscribers_batch store rows i st))"
  "store (i div subscribers_batchSize) = Threw m t \<Longrightarrow>
     (''Exception in subscribers batch '' @ dec (i div subscribers_batchSize + 1) @ '': '' @ m)
       \<in> set (logged (subscribers_batch store rows i st))"
  by (simp_all add: subscribers_batch_def Let_def log_def)

lemma subscribers_loop_counts:
  "successCount (subscribers_loop store rows i st) + errorCount (subscribers_loop store rows i st)
   = successCount st + errorCount st + (length rows - i)"
proof (induction store rows i st rule: subscribers_loop.induct)
  case (1 store rows i st)
  show ?case
  proof (cases "i < length rows")
    case True
    have "min (length rows - i) subscribers_batchSize
        + (length rows - (i + subscribers_batchSize)) = length rows - i"
      by arith
    with 1[OF True] show ?thesis
      by (simp add: subscribers_loop_step[OF True] subscribers_batch_errors
          subscribers_batch_successes)
  next
    case False
    then show ?thesis by (simp add: subscribers_loop_done)
  qed
qed

lemma subscribers_loop_errors:
  "i = subscribers_batchSize * k \<Longrightarrow>
   errorCount (subscribers_loop store rows i st)
   = errorCount st + failed_rows store k (batches subscribers_batchSize (drop i rows))"
proof (induction store rows i st arbitrary: k rule: subscribers_loop.induct)
  case (1 store rows i st)
  show ?case
  proof (cases "i < length rows")
    case True
    have d: "i div subscribers_batchSize = k" using 1(2) batchSize_pos(2) by simp
    have n: "i + subscribers_batchSize = subscribers_batchSize * Suc k" using 1(2) by simp
    from 1(1)[OF True n] show ?thesis
      by (simp add: subscribers_loop_step[OF True] subscribers_batch_errors d
          batches_drop_step[OF batchSize_pos(2) True] failed_rows_Cons)
  next
    case False
    then show ?thesis by (simp add: subscribers_loop_done failed_rows_def)
  qed
qed

lemma subscribers_loop_error_line:
  "subscribers_batchSize * k < length rows \<Longrightarrow> i = subscribers_batchSize * j \<Longrightarrow> j \<le> k \<Longrightarrow>
    (store k = Rejected m d \<longrightarrow>
       (''Error in subscribers batch '' @ dec (k + 1) @ '': '' @ m)
         \<in> set (logged (subscribers_loop store rows i st)))
    \<and> (store k = Threw m d \<longrightarrow>
       (''Exception in subscribers batch '' @ dec (k + 1) @ '': '' @ m)
         \<in> set (logged (subscribers_loop store rows i st)))"
proof (induction store rows i st arbitrary: j rule: subscribers_loop.induct)
  case (1 store rows i st)
  have "i \<le> subscribers_batchSize * k" using 1(3,4) by simp
  with 1(2) have True: "i < length rows" by simp
  note step = subscribers_loop_step[OF True]
  have d: "i div subscribers_batchSize = j" using 1(3) batchSize_pos(2) by simp
  show ?case
  proof (cases "j = k")
    case True
    with d have dk: "i div subscribers_batchSize = k" by simp
    have mono: "set (logged (subscribers_batch store rows i st))
        \<subseteq> set (logged (subscribers_loop store rows i st))"
      by (simp only: step) (rule subscribers_loop_logged_mono)
    from subscribers_batch_error_line[of store i, unfolded dk] mono show ?thesis by blast
  next
    case False
    with 1(4) have le: "Suc j \<le> k" by simp
    have n: "i + subscribers_batchSize = subscribers_batchSize * Suc j" using 1(3) by simp
    from 1(1)[OF \<open>i < length rows\<close> 1(2) n le] show ?thesis
      by (simp only: step)
  qed
qed

subsection \<open>The whole run\<close>

lemma log_fields [simp]:
  "successCount (log m st) = successCount st" "errorCount (log m st) = errorCount st"
  "article_calls (log m st) = article_calls st" "subscriber_calls (log m st) = subscriber_calls st"
  "articles_table (log m st) = articles_table st" "subscribers_table (log m st) = subscribers_table st"
  "logged (log m st) = logged st @ [m]"
  by (simp_all add: log_def)

lemma migrateSubscribers_fields:
  "article_calls (migrateSubscribers src rt st) = article_calls st"
  "articles_table (migrateSubscribers src rt st) = articles_table st"
  "subscriber_calls (migrateSubscribers src rt st)
   = subscriber_calls st @ map subscriber_call
       (batches subscribers_batchSize (convert_subscribers (subscriber_clock rt) 0 (subscriber_docs src)))"
  by (simp_all add: migrateSubscribers_def Let_def subscribers_loop_article_calls
      subscribers_loop_articles_table subscribers_loop_calls)

lemma migrateSubscribers_table:
  "\<forall>k. subscribers_store rt k = Accepted \<Longrightarrow>
   subscribers_table (migrateSubscribers src rt st)
   = upsert email True (subscribers_table st)
       (convert_subscribers (subscriber_clock rt) 0 (subscriber_docs src))"
  by (simp add: migrateSubscribers_def Let_def subscribers_loop_table upsert_def)

lemma migrateSubscribers_logged_mono:
  "set (logged st) \<subseteq> set (logged (migrateSubscribers src rt st))"
proof -
  let ?subs = "convert_subscribers (subscriber_clock rt) 0 (subscriber_docs src)"
  let ?st2 = "log (''Found '' @ dec (length (subscriber_docs src)) @ '' subscribers in MongoDB'')
                (log ''Starting migration of subscribers'' st)"
  have "set (logged st) \<subseteq> set (logged ?st2)" by auto
  moreover have "set (logged (?st2\<lparr>successCount := 0, errorCount := 0\<rparr>))
      \<subseteq> set (logged (subscribers_loop (subscribers_store rt) ?subs 0
            (?st2\<lparr>successCount := 0, errorCount := 0\<rparr>)))"
    by (rule subscribers_loop_logged_mono)
  ultimately show ?thesis
    by (auto simp: migrateSubscribers_def Let_def)
qed

lemma migrateSubscribers_copy:
  "subscriber_docs src \<noteq> [] \<Longrightarrow>
   migrateSubscribers src rt st
   = log (subscribers_summary_line
            (subscribers_loop (subscribers_store rt)
               (convert_subscribers (subscriber_clock rt) 0 (subscriber_docs src)) 0
               (before_subscribers_loop src st)))
       (subscribers_loop (subscribers_store rt)
          (convert_subscribers (subscriber_clock rt) 0 (subscriber_docs src)) 0
          (before_subscribers_loop src st))"
  by (simp add: migrateSubscribers_def Let_def subscribers_summary_line_def
      before_subscribers_loop_def)

lemma before_subscribers_loop_fields [simp]:
  "successCount (before_subscribers_loop src st) = 0"
  "errorCount (before_subscribers_loop src st) = 0"
  by (simp_all add: before_subscribers_loop_def)

lemma migrateData_copy:
  assumes "connect_failure src = None" and "''articles'' \<in> set (collection_names src)"
    and "article_docs src \<noteq> []"
    and "convert_all (article_clock rt) 0 (article_docs src) = Inr rows"
  shows "migrateData src rt st =
    close_connection
      ((if ''subscribers'' \<in> set (collection_names src) then migrateSubscribers src rt else (\<lambda>s. s))
        (log (summary_line (articles_loop (articles_store rt) rows 0 (before_loop src (length rows) st)))
          (articles_loop (articles_store rt) rows 0 (before_loop src (length rows) st))))"
  using assms
  by (simp add: migrateData_def Let_def summary_line_def before_loop_def)

lemma before_loop_fields [simp]:
  "successCount (before_loop src n st) = 0" "errorCount (before_loop src n st) = 0"
  "article_calls (before_loop src n st) = article_calls st"
  "subscriber_calls (before_loop src n st) = subscriber_calls st"
  "articles_table (before_loop src n st) = articles_table st"
  "subscribers_table (before_loop src n st) = subscribers_table st"
  by (simp_all add: before_loop_def)

lemma close_connection_fields [simp]:
  "article_calls (close_connection st) = article_calls st"
  "subscriber_calls (close_connection st) = subscriber_calls st"
  "articles_table (close_connection st) = articles_table st"
  "subscribers_table (close_connection st) = subscribers_table st"
  "logged (close_connection st) = logged st @ [''MongoDB connection closed'']"
  by (simp_all add: close_connection_def)

lemma new_job_fields [simp]:
  "successCount (new_job T S) = 0" "errorCount (new_job T S) = 0"
  "article_calls (new_job T S) = []" "subscriber_calls (new_job T S) = []"
  "articles_table (new_job T S) = T" "subscribers_table (new_job T S) = S"
  "logged (new_job T S) = []"
  by (simp_all add: new_job_def)

lemma migrateData_article_calls:
  assumes "connect_failure src = None" and "''articles'' \<in> set (collection_names src)"
    and "article_docs src \<noteq> []"
    and "convert_all (article_clock rt) 0 (article_docs src) = Inr rows"
  shows "article_calls (migrateData src rt st)
    = article_calls st @ map article_call (batches batchSize rows)"
  by (simp add: migrateData_copy[OF assms] migrateSubscribers_fields articles_loop_calls)

lemma migrateData_subscriber_calls:
  assumes "connect_failure src = None" and "''articles'' \<in> set (collection_names src)"
    and "article_docs src \<noteq> []"
    and "convert_all (article_clock rt) 0 (article_docs src) = Inr rows"
    and "''subscribers'' \<in> set (collection_names src)"
  shows "subscriber_calls (migrateData src rt st)
    = subscriber_calls st @ map subscriber_call
        (batches subscribers_batchSize
          (convert_subscribers (subscriber_clock rt) 0 (subscriber_docs src)))"
  by (simp add: migrateData_copy[OF assms(1-4)] assms(5) migrateSubscribers_fields
      articles_loop_other)

lemma migrateData_logged:
  assumes "connect_failure src = None" and "''articles'' \<in> set (collection_names src)"
    and "article_docs src \<noteq> []"
    and "convert_all (article_clock rt) 0 (article_docs src) = Inr rows"
  shows "set (logged (log (summary_line (articles_loop (articles_store rt) rows 0 (before_loop src (length rows) st)))
          (articles_loop (articles_store rt) rows 0 (before_loop src (length rows) st))))
         \<subseteq> set (logged (migrateData src rt st))"
proof -
  let ?X = "log (summary_line (articles_loop (articles_store rt) rows 0 (before_loop src (length rows) st)))
          (articles_loop (articles_store rt) rows 0 (before_loop src (length rows) st))"
  let ?Y = "(if ''subscribers'' \<in> set (collection_names src) then migrateSubscribers src rt
            else (\<lambda>s. s)) ?X"
  have m: "migrateData src rt st = close_connection ?Y"
    by (rule migrateData_copy[OF assms])
  have 1: "set (logged ?X) \<subseteq> set (logged ?Y)"
  proof (cases "''subscribers'' \<in> set (collection_names src)")
    case True
    with migrateSubscribers_logged_mono[of ?X src rt] show ?thesis
      by (simp only: if_True)
  next
    case False
    then show ?thesis by simp
  qed
  have 2: "set (logged ?Y) \<subseteq> set (logged (close_connection ?Y))"
    by (simp only: close_connection_fields) auto
  from 1 2 show ?thesis unfolding m by (rule subset_trans)
qed

lemma convert_all_length: "convert_all ck k docs = Inr rows \<Longrightarrow> length rows = length docs"
  by (induction docs arbitrary: k rows) (auto split: sum.splits)


lemma convert_all_total:
  "list_all (\<lambda>d. \<exists>v. excerpt_of d = Inr v) docs \<Longrightarrow> \<exists>rows. convert_all ck k docs = Inr rows"
proof (induction docs arbitrary: k)
  case Nil
  then show ?case by simp
next
  case (Cons d docs)
  from Cons.prems obtain v where v: "excerpt_of d = Inr v" by auto
  from Cons.prems have "list_all (\<lambda>d. \<exists>v. excerpt_of d = Inr v) docs" by simp
  from Cons.IH[OF this, of "Suc k"] obtain rows where "convert_all ck (Suc k) docs = Inr rows" ..
  then show ?case
    by (simp add: convertDocumentToSupabaseFormat_def Let_def v)
qed

lemma length_convert_subscribers: "length (convert_subscribers ck k docs) = length docs"
  by (induction docs arbitrary: k) simp_all

lemma batches_sizes_eq:
  "length xs = length ys \<Longrightarrow> map length (batches n xs) = map length (batches n ys)"
proof (induction n xs arbitrary: ys rule: batches.induct)
  case (1 n xs)
  show ?case
  proof (cases "n = 0 \<or> xs = []")
    case True
    with 1(2) show ?thesis by (auto simp: batches.simps)
  next
    case False
    with 1(2) have ys: "ys \<noteq> []" by auto
    from False have n: "0 < n" and xs: "xs \<noteq> []" by simp_all
    from 1(2) have "length (drop n xs) = length (drop n ys)" by simp
    from 1(1)[OF False this] 1(2) show ?thesis
      by (simp add: batches_step[OF n xs] batches_step[OF n ys])
  qed
qed

lemma failed_rows_sizes_eq:
  "map length bs = map length cs \<Longrightarrow> failed_rows store k bs = failed_rows store k cs"
proof (induction bs arbitrary: cs k)
  case Nil
  then show ?case by (simp add: failed_rows_def)
next
  case (Cons b bs)
  then obtain c cs' where cs: "cs = c # cs'" by (cases cs) auto
  with Cons.prems have "length b = length c" and "map length bs = map length cs'" by simp_all
  with Cons.IH[of cs' "Suc k"] show ?case by (simp add: cs failed_rows_Cons)
qed

text \<open>
  Claim C8. In a run that reaches the copy, whatever the store answers to each batch, for
  the article loop of \<open>migrateData\<close> and, when there is a \<open>subscribers\<close> collection with
  documents, for the subscriber loop of \<open>migrateSubscribers\<close> alike: every batch is sent
  (none is skipped after a failure); the summary line of the loop reports \<open>s\<close> successes
  and \<open>e\<close> errors with \<open>s + e\<close> the number of source documents and \<open>e\<close> the total size
  of the batches whose upsert was rejected or threw; and each such batch has its "Error in
  batch" or "Exception in batch" line ("Error in subscribers batch", "Exception in
  subscribers batch") in the log.
\<close>

theorem failed_batches_counted:
  assumes "connect_failure src = None" and "''articles'' \<in> set (collection_names src)"
    and "article_docs src \<noteq> []"
    and "convert_all (article_clock rt) 0 (article_docs src) = Inr rows"
    and "convert_subscribers (subscriber_clock rt) 0 (subscriber_docs src) = subs"
  shows "(\<exists>s e. s + e = length (article_docs src)
       \<and> e = failed_rows (articles_store rt) 0 (batches 10 rows)
       \<and> (''Migration completed: '' @ dec s @ '' articles successfully processed, ''
            @ dec e @ '' errors'') \<in> set (logged (migrateData src rt (new_job T S))))
       \<and> map call_rows (article_calls (migrateData src rt (new_job T S))) = batches 10 rows
       \<and> (\<forall>k m d. 10 * k < length rows \<and> articles_store rt k = Rejected m d \<longrightarrow>
            (''Error in batch '' @ dec (k + 1) @ '': '' @ m)
              \<in> set (logged (migrateData src rt (new_job T S))))
       \<and> (\<forall>k m d. 10 * k < length rows \<and> articles_store rt k = Threw m d \<longrightarrow>
            (''Exception in batch '' @ dec (k + 1) @ '': '' @ m)
              \<in> set (logged (migrateData src rt (new_job T S))))
       \<and> (''subscribers'' \<in> set (collection_names src) \<and> subscriber_docs src \<noteq> [] \<longrightarrow>
            (\<exists>s e. s + e = length (subscriber_docs src)
               \<and> e = failed_rows (subscribers_store rt) 0 (batches 20 subs)
               \<and> (''Subscribers migration completed: '' @ dec s @ '' successfully processed, ''
                    @ dec e @ '' errors'') \<in> set (logged (migrateData src rt (new_job T S))))
            \<and> map call_rows (subscriber_calls (migrateData src rt (new_job T S))) = batches 20 subs
            \<and> (\<forall>k m d. 20 * k < length subs \<and> subscribers_store rt k = Rejected m d \<longrightarrow>
                 (''Error in subscribers batch '' @ dec (k + 1) @ '': '' @ m)
                   \<in> set (logged (migrateData src rt (new_job T S))))
            \<and> (\<forall>k m d. 20 * k < length subs \<and> subscribers_store rt k = Threw m d \<longrightarrow>
                 (''Exception in subscribers batch '' @ dec (k + 1) @ '': '' @ m)
                   \<in> set (logged (migrateData src rt (new_job T S)))))"
proof -
  let ?init = "before_loop src (length rows) (new_job T S)"
  let ?fin = "articles_loop (articles_store rt) rows 0 ?init"
  let ?J = "migrateData src rt (new_job T S)"
  have len: "length rows = length (article_docs src)"
    by (rule convert_all_length[OF assms(4)])
  have sum: "successCount ?fin + errorCount ?fin = length (article_docs src)"
    using articles_loop_counts[where store = "articles_store rt" and rows = rows and i = 0
        and st = ?init] by (simp add: len)
  have z: "(0::nat) = batchSize * 0" by simp
  have err: "errorCount ?fin = failed_rows (articles_store rt) 0 (batches 10 rows)"
    using articles_loop_errors[OF z, where store = "articles_store rt" and rows = rows
        and st = ?init]
    by (simp add: batchSize_def)
  have mono: "set (logged (log (summary_line ?fin) ?fin)) \<subseteq> set (logged ?J)"
    by (rule migrateData_logged[OF assms(1-4)])
  have "summary_line ?fin \<in> set (logged (log (summary_line ?fin) ?fin))" by simp
  with mono have line: "summary_line ?fin \<in> set (logged ?J)" by blast
  have calls: "map call_rows (article_calls ?J) = batches 10 rows"
    by (simp add: migrateData_article_calls[OF assms(1-4)] batchSize_def article_call_def comp_def)
  have lm: "set (logged ?fin) \<subseteq> set (logged ?J)"
    using mono by auto
  have rej: "(''Error in batch '' @ dec (k + 1) @ '': '' @ m) \<in> set (logged ?J)"
    if "10 * k < length rows" "articles_store rt k = Rejected m d" for k m d
  proof -
    from that(1) have b: "batchSize * k < length rows" by (simp add: batchSize_def)
    from articles_loop_error_line[OF b z, where store = "articles_store rt" and m = m
        and d = d and st = ?init] that(2)
    have "(''Error in batch '' @ dec (k + 1) @ '': '' @ m) \<in> set (logged ?fin)" by simp
    with lm show ?thesis by blast
  qed
  have thr: "(''Exception in batch '' @ dec (k + 1) @ '': '' @ m) \<in> set (logged ?J)"
    if "10 * k < length rows" "articles_store rt k = Threw m d" for k m d
  proof -
    from that(1) have b: "batchSize * k < length rows" by (simp add: batchSize_def)
    from articles_loop_error_line[OF b z, where store = "articles_store rt" and m = m
        and d = d and st = ?init] that(2)
    have "(''Exception in batch '' @ dec (k + 1) @ '': '' @ m) \<in> set (logged ?fin)" by simp
    with lm show ?thesis by blast
  qed
  from line have line': "(''Migration completed: '' @ dec (successCount ?fin)
      @ '' articles successfully processed, '' @ dec (errorCount ?fin) @ '' errors'')
      \<in> set (logged ?J)"
    by (simp only: summary_line_def)
  have arts: "\<exists>s e. s + e = length (article_docs src)
       \<and> e = failed_rows (articles_store rt) 0 (batches 10 rows)
       \<and> (''Migration completed: '' @ dec s @ '' articles successfully processed, ''
            @ dec e @ '' errors'') \<in> set (logged ?J)"
    using sum err line' by blast
  have subsp: "(\<exists>s e. s + e = length (subscriber_docs src)
               \<and> e = failed_rows (subscribers_store rt) 0 (batches 20 subs)
               \<and> (''Subscribers migration completed: '' @ dec s @ '' successfully processed, ''
                    @ dec e @ '' errors'') \<in> set (logged ?J))
            \<and> map call_rows (subscriber_calls ?J) = batches 20 subs
            \<and> (\<forall>k m d. 20 * k < length subs \<and> subscribers_store rt k = Rejected m d \<longrightarrow>
                 (''Error in subscribers batch '' @ dec (k + 1) @ '': '' @ m) \<in> set (logged ?J))
            \<and> (\<forall>k m d. 20 * k < length subs \<and> subscribers_store rt k = Threw m d \<longrightarrow>
                 (''Exception in subscribers batch '' @ dec (k + 1) @ '': '' @ m) \<in> set (logged ?J))"
    if coll: "''subscribers'' \<in> set (collection_names src)" and ne: "subscriber_docs src \<noteq> []"
  proof -
    let ?X = "log (summary_line ?fin) ?fin"
    let ?sinit = "before_subscribers_loop src ?X"
    let ?sfin = "subscribers_loop (subscribers_store rt) subs 0 ?sinit"
    have m: "?J = close_connection (migrateSubscribers src rt ?X)"
      using migrateData_copy[OF assms(1-4), of "new_job T S"] coll by (simp only: if_True)
    have ms: "migrateSubscribers src rt ?X = log (subscribers_summary_line ?sfin) ?sfin"
      using migrateSubscribers_copy[OF ne, of rt ?X] by (simp only: assms(5))
    have lg: "logged ?J = logged ?sfin @ [subscribers_summary_line ?sfin, ''MongoDB connection closed'']"
      by (simp only: m ms close_connection_fields log_fields) simp
    have slen: "length subs = length (subscriber_docs src)"
      using assms(5) length_convert_subscribers by blast
    have ssum: "successCount ?sfin + errorCount ?sfin = length (subscriber_docs src)"
      using subscribers_loop_counts[where store = "subscribers_store rt" and rows = subs and i = 0
          and st = ?sinit] by (simp add: slen)
    have sz: "(0::nat) = subscribers_batchSize * 0" by simp
    have serr: "errorCount ?sfin = failed_rows (subscribers_store rt) 0 (batches 20 subs)"
      using subscribers_loop_errors[OF sz, where store = "subscribers_store rt" and rows = subs
          and st = ?sinit]
      by (simp add: subscribers_batchSize_def)
    have sline: "(''Subscribers migration completed: '' @ dec (successCount ?sfin)
          @ '' successfully processed, '' @ dec (errorCount ?sfin) @ '' errors'') \<in> set (logged ?J)"
      by (simp only: lg subscribers_summary_line_def) simp
    have scalls: "map call_rows (subscriber_calls ?J) = batches 20 subs"
      using migrateData_subscriber_calls[OF assms(1-4) coll, of "new_job T S"]
      by (simp add: assms(5) subscribers_batchSize_def subscriber_call_def comp_def)
    have slm: "set (logged ?sfin) \<subseteq> set (logged ?J)"
      by (simp only: lg) auto
    have srej: "(''Error in subscribers batch '' @ dec (k + 1) @ '': '' @ m) \<in> set (logged ?J)"
      if "20 * k < length subs" "subscribers_store rt k = Rejected m d" for k m d
    proof -
      from that(1) have b: "subscribers_batchSize * k < length subs"
        by (simp add: subscribers_batchSize_def)
      from subscribers_loop_error_line[OF b sz, where store = "subscribers_store rt" and m = m
          and d = d and st = ?sinit] that(2)
      have "(''Error in subscribers batch '' @ dec (k + 1) @ '': '' @ m) \<in> set (logged ?sfin)"
        by simp
      with slm show ?thesis by blast
    qed
    have sthr: "(''Exception in subscribers batch '' @ dec (k + 1) @ '': '' @ m) \<in> set (logged ?J)"
      if "20 * k < length subs" "subscribers_store rt k = Threw m d" for k m d
    proof -
      from that(1) have b: "subscribers_batchSize * k < length subs"
        by (simp add: subscribers_batchSize_def)
      from subscribers_loop_error_line[OF b sz, where store = "subscribers_store rt" and m = m
          and d = d and st = ?sinit] that(2)
      have "(''Exception in subscribers batch '' @ dec (k + 1) @ '': '' @ m) \<in> set (logged ?sfin)"
        by simp
      with slm show ?thesis by blast
    qed
    have "\<exists>s e. s + e = length (subscriber_docs src)
               \<and> e = failed_rows (subscribers_store rt) 0 (batches 20 subs)
               \<and> (''Subscribers migration completed: '' @ dec s @ '' successfully processed, ''
                    @ dec e @ '' errors'') \<in> set (logged ?J)"
      using ssum serr sline by blast
    with scalls srej sthr show ?thesis by blast
  qed
  show ?thesis
    using arts calls rej thr subsp by blast
qed


lemma ex_source30_converts:
  "\<exists>rows. convert_all ck 0 (article_docs ex_source30) = Inr rows"
proof -
  have "excerpt_of ex_title_only = Inr (JStr ''undefined...'')"
    by (simp add: ex_title_only_def excerpt_of_def doc_get_def content_substring_def
        plus_string_def or_else_def)
  then have "list_all (\<lambda>d. \<exists>v. excerpt_of d = Inr v) (article_docs ex_source30)"
    by (simp add: ex_source30_def list_all_iff)
  then show ?thesis by (rule convert_all_total)
qed

lemma ex_sizes:
  "map length (batches 10 (replicate 30 ())) = [10, 10, 10]"
  "map length (batches 20 (replicate 21 ())) = [20, 1]"
  by code_simp+

theorem failed_batches_counted_witness:
  "''Migration completed: 20 articles successfully processed, 10 errors''
      \<in> set (logged (migrateData ex_source30 ex_runtime_failing_both (new_job [] [])))
   \<and> ''Error in batch 2: timeout''
      \<in> set (logged (migrateData ex_source30 ex_runtime_failing_both (new_job [] [])))
   \<and> map length (map call_rows
        (article_calls (migrateData ex_source30 ex_runtime_failing_both (new_job [] []))))
      = [10, 10, 10]
   \<and> ''Subscribers migration completed: 20 successfully processed, 1 errors''
      \<in> set (logged (migrateData ex_source30 ex_runtime_failing_both (new_job [] [])))
   \<and> ''Exception in subscribers batch 2: fetch failed''
      \<in> set (logged (migrateData ex_source30 ex_runtime_failing_both (new_job [] [])))
   \<and> map length (map call_rows
        (subscriber_calls (migrateData ex_source30 ex_runtime_failing_both (new_job [] []))))
      = [20, 1]"
proof -
  let ?rt = ex_runtime_failing_both
  let ?J = "migrateData ex_source30 ?rt (new_job [] [])"
  let ?subs = "convert_subscribers (subscriber_clock ?rt) 0 (subscriber_docs ex_source30)"
  obtain rows where rows: "convert_all (article_clock ?rt) 0 (article_docs ex_source30) = Inr rows"
    using ex_source30_converts by blast
  have h1: "connect_failure ex_source30 = None" by (simp add: ex_source30_def)
  have h2: "''articles'' \<in> set (collection_names ex_source30)" by (simp add: ex_source30_def)
  have h3: "article_docs ex_source30 \<noteq> []" by (simp add: ex_source30_def)
  have h5: "?subs = ?subs" by simp
  have h6: "''subscribers'' \<in> set (collection_names ex_source30) \<and> subscriber_docs ex_source30 \<noteq> []"
    by (simp add: ex_source30_def)
  have len: "length rows = 30"
    using convert_all_length[OF rows] by (simp add: ex_source30_def)
  then have sz: "map length (batches 10 rows) = [10, 10, 10]"
    using batches_sizes_eq[of rows "replicate 30 ()" 10] by (simp add: ex_sizes)
  have slen: "length ?subs = 21"
    by (simp add: length_convert_subscribers ex_source30_def)
  then have ssz: "map length (batches 20 ?subs) = [20, 1]"
    using batches_sizes_eq[of ?subs "replicate 21 ()" 20] by (simp add: ex_sizes)
  have "failed_rows (articles_store ?rt) 0 (batches 10 rows)
      = failed_rows (articles_store ?rt) 0 (batches 10 (replicate 30 ()))"
    by (rule failed_rows_sizes_eq) (simp add: sz ex_sizes)
  also have "\<dots> = 10"
    by (simp add: ex_runtime_failing_both_def) code_simp
  finally have fr: "failed_rows (articles_store ?rt) 0 (batches 10 rows) = 10" .
  have "failed_rows (subscribers_store ?rt) 0 (batches 20 ?subs)
      = failed_rows (subscribers_store ?rt) 0 (batches 20 (replicate 21 ()))"
    by (rule failed_rows_sizes_eq) (simp add: ssz ex_sizes)
  also have "\<dots> = 1"
    by (simp add: ex_runtime_failing_both_def) code_simp
  finally have sfr: "failed_rows (subscribers_store ?rt) 0 (batches 20 ?subs) = 1" .
  note t = failed_batches_counted[OF h1 h2 h3 rows h5, of "[]" "[]"]
  from t obtain s e where se: "s + e = length (article_docs ex_source30)"
    and e: "e = failed_rows (articles_store ?rt) 0 (batches 10 rows)"
    and line: "(''Migration completed: '' @ dec s @ '' articles successfully processed, ''
            @ dec e @ '' errors'') \<in> set (logged ?J)"
    by blast
  from t have calls: "map call_rows (article_calls ?J) = batches 10 rows"
    by blast
  from t have rej: "\<forall>k m d. 10 * k < length rows \<and> articles_store ?rt k = Rejected m d \<longrightarrow>
            (''Error in batch '' @ dec (k + 1) @ '': '' @ m) \<in> set (logged ?J)"
    by blast
  from t h6 obtain s' e' where se': "s' + e' = length (subscriber_docs ex_source30)"
    and e': "e' = failed_rows (subscribers_store ?rt) 0 (batches 20 ?subs)"
    and sline: "(''Subscribers migration completed: '' @ dec s' @ '' successfully processed, ''
            @ dec e' @ '' errors'') \<in> set (logged ?J)"
    by blast
  from t h6 have scalls: "map call_rows (subscriber_calls ?J) = batches 20 ?subs"
    by blast
  from t h6 have sthr: "\<forall>k m d. 20 * k < length ?subs \<and> subscribers_store ?rt k = Threw m d \<longrightarrow>
            (''Exception in subscribers batch '' @ dec (k + 1) @ '': '' @ m) \<in> set (logged ?J)"
    by blast
  from e fr have e10: "e = 10" by simp
  with se have s20: "s = 20" by (simp add: ex_source30_def)
  from e' sfr have e1: "e' = 1" by simp
  with se' have s20': "s' = 20" by (simp add: ex_source30_def)
  have d: "dec 20 = ''20''" "dec 10 = ''10''" "dec (1 + 1) = ''2''" "dec (Suc 0) = ''1''"
    by (simp_all add: dec.simps)
  from line have l1: "''Migration completed: 20 articles successfully processed, 10 errors''
      \<in> set (logged ?J)"
    by (simp add: e10 s20 d)
  have "10 * 1 < length rows \<and> articles_store ?rt 1 = Rejected ''timeout'' []"
    by (simp add: len ex_runtime_failing_both_def)
  with rej have "(''Error in batch '' @ dec (1 + 1) @ '': '' @ ''timeout'') \<in> set (logged ?J)"
    by blast
  then have l2: "''Error in batch 2: timeout'' \<in> set (logged ?J)"
    by (simp only: d) simp
  from calls sz have l3: "map length (map call_rows (article_calls ?J)) = [10, 10, 10]"
    by simp
  from sline have l4: "''Subscribers migration completed: 20 successfully processed, 1 errors''
      \<in> set (logged ?J)"
    by (simp add: e1 s20' d)
  have "20 * 1 < length ?subs \<and> subscribers_store ?rt 1 = Threw ''fetch failed'' []"
    by (simp add: length_convert_subscribers ex_source30_def ex_runtime_failing_both_def)
  with sthr have "(''Exception in subscribers batch '' @ dec (1 + 1) @ '': '' @ ''fetch failed'')
      \<in> set (logged ?J)"
    by blast
  then have l5: "''Exception in subscribers batch 2: fetch failed'' \<in> set (logged ?J)"
    by (simp only: d) simp
  from scalls ssz have l6: "map length (map call_rows (subscriber_calls ?J)) = [20, 1]"
    by simp
  from l1 l2 l3 l4 l5 l6 show ?thesis by blast
qed


subsection \<open>Upserts\<close>

lemma upsert_row_keys:
  "map key (upsert_row key ig T r)
   = (if key r \<in> set (map key T) then map key T else map key T @ [key r])"
  by (induction T) auto

lemma upsert_row_distinct:
  "distinct (map key T) \<Longrightarrow> distinct (map key (upsert_row key ig T r))"
  by (simp add: upsert_row_keys)

lemma upsert_distinct:
  "distinct (map key T) \<Longrightarrow> distinct (map key (upsert key ig T rows))"
  unfolding upsert_def
  by (induction rows arbitrary: T) (simp_all add: upsert_row_distinct)

lemma upsert_row_key_set:
  "key ` set (upsert_row key ig T r) = insert (key r) (key ` set T)"
proof -
  have "set (map key (upsert_row key ig T r)) = insert (key r) (set (map key T))"
    by (simp only: upsert_row_keys) auto
  then show ?thesis by simp
qed

lemma upsert_key_set:
  "key ` set (upsert key ig T rows) = key ` set T \<union> key ` set rows"
  unfolding upsert_def
proof (induction rows arbitrary: T)
  case Nil
  then show ?case by simp
next
  case (Cons r rows)
  from Cons[of "upsert_row key ig T r"] show ?case
    by (simp add: upsert_row_key_set)
qed

lemma upsert_same_keys:
  "key ` set rows \<subseteq> key ` set T \<Longrightarrow> map key (upsert key ig T rows) = map key T"
  unfolding upsert_def
proof (induction rows arbitrary: T)
  case Nil
  then show ?case by simp
next
  case (Cons r rows)
  from Cons.prems have k: "map key (upsert_row key ig T r) = map key T"
    by (simp add: upsert_row_keys)
  from Cons.prems have "key ` set rows \<subseteq> key ` set (upsert_row key ig T r)"
    by (auto simp: upsert_row_key_set)
  from Cons.IH[OF this] k show ?case by simp
qed

lemma upsert_row_ignore_present:
  "key r \<in> key ` set T \<Longrightarrow> upsert_row key True T r = T"
  by (induction T) auto

lemma upsert_ignore_present:
  "key ` set rows \<subseteq> key ` set T \<Longrightarrow> upsert key True T rows = T"
  unfolding upsert_def
  by (induction rows) (simp_all add: upsert_row_ignore_present)

lemma find_absent: "k \<notin> key ` set T \<Longrightarrow> find (\<lambda>z. key z = k) T = None"
  by (induction T) auto

lemma find_upsert_row:
  "find (\<lambda>x. key x = k) (upsert_row key False T r)
   = (if k = key r then Some r else find (\<lambda>x. key x = k) T)"
  by (induction T) auto

lemma find_snoc:
  "find P (xs @ [y]) = (case find P xs of None \<Rightarrow> (if P y then Some y else None) | Some x \<Rightarrow> Some x)"
  by (induction xs) auto

lemma find_upsert:
  "find (\<lambda>x. key x = k) (upsert key False T rows)
   = (case find (\<lambda>x. key x = k) (rev rows) of
        None \<Rightarrow> find (\<lambda>x. key x = k) T | Some r \<Rightarrow> Some r)"
  unfolding upsert_def
proof (induction rows arbitrary: T)
  case Nil
  then show ?case by simp
next
  case (Cons r rows)
  show ?case
    by (simp add: Cons.IH find_upsert_row find_snoc split: option.splits)
qed

lemma table_eqI:
  "distinct (map key T) \<Longrightarrow> map key T = map key U \<Longrightarrow>
   (\<And>k. find (\<lambda>x. key x = k) T = find (\<lambda>x. key x = k) U) \<Longrightarrow> T = U"
proof (induction T arbitrary: U)
  case Nil
  then show ?case by simp
next
  case (Cons x T)
  from Cons.prems(2) obtain y U' where U: "U = y # U'" by (cases U) auto
  with Cons.prems(2) have kxy: "key y = key x" and keys: "map key T = map key U'" by simp_all
  from Cons.prems(3)[of "key x"] U kxy have xy: "x = y" by simp
  from Cons.prems(1) have dT: "distinct (map key T)" and nx: "key x \<notin> set (map key T)" by simp_all
  have "find (\<lambda>z. key z = k) T = find (\<lambda>z. key z = k) U'" for k
  proof (cases "k = key x")
    case True
    from nx have nT: "key x \<notin> key ` set T" by simp
    from nx keys have nU: "key x \<notin> key ` set U'" by (metis list.set_map)
    from find_absent[OF nT] find_absent[OF nU]
    have "find (\<lambda>z. key z = key x) T = find (\<lambda>z. key z = key x) U'" by simp
    then show ?thesis using True by simp
  next
    case False
    with Cons.prems(3)[of k] U kxy show ?thesis by simp
  qed
  from Cons.IH[OF dT keys this] xy U show ?case by simp
qed

lemma upsert_overwrite_twice:
  assumes "distinct (map key T)"
  shows "upsert key False (upsert key False T rows) rows = upsert key False T rows"
proof (rule table_eqI[symmetric, where key = key])
  let ?U = "upsert key False T rows"
  show "distinct (map key ?U)" by (rule upsert_distinct[OF assms])
  have "key ` set rows \<subseteq> key ` set ?U" by (simp add: upsert_key_set)
  then show "map key ?U = map key (upsert key False ?U rows)"
    by (simp add: upsert_same_keys)
  show "find (\<lambda>x. key x = k) ?U = find (\<lambda>x. key x = k) (upsert key False ?U rows)" for k
    by (simp add: find_upsert split: option.splits)
qed

subsection \<open>What a conversion takes from the clock\<close>

lemma convert_slug:
  "convertDocumentToSupabaseFormat ck doc = Inr r \<Longrightarrow>
   slug r = (if truthy (doc_get doc ''slug'') then doc_get doc ''slug''
             else JStr (''article-'' @ dec (date_now ck) @ ''-'' @ dec (random_1000 ck)))"
  by (auto simp: convertDocumentToSupabaseFormat_def Let_def or_else_def split: sum.splits)

lemma convert_error_clock:
  "convertDocumentToSupabaseFormat ck doc = Inl e \<longleftrightarrow> excerpt_of doc = Inl e"
  by (auto simp: convertDocumentToSupabaseFormat_def Let_def split: sum.splits)

lemma convert_clock_independent:
  "truthy (doc_get doc ''slug'') \<Longrightarrow> truthy (doc_get doc ''published_date'') \<Longrightarrow>
   convertDocumentToSupabaseFormat ck doc = convertDocumentToSupabaseFormat ck' doc"
  by (cases "excerpt_of doc")
     (simp_all add: convertDocumentToSupabaseFormat_def Let_def or_else_def)

lemma convert_all_clock_independent:
  "list_all (\<lambda>d. truthy (doc_get d ''slug'') \<and> truthy (doc_get d ''published_date'')) docs \<Longrightarrow>
   convert_all ck k docs = convert_all ck' k' docs"
proof (induction docs arbitrary: k k')
  case Nil
  then show ?case by simp
next
  case (Cons d docs)
  from Cons.prems have a: "convertDocumentToSupabaseFormat (ck k) d
      = convertDocumentToSupabaseFormat (ck' k') d"
    by (simp add: convert_clock_independent)
  from Cons.prems have b: "convert_all ck (Suc k) docs = convert_all ck' (Suc k') docs"
    by (intro Cons.IH) simp
  show ?case by (simp only: convert_all.simps a b)
qed

lemma convert_all_slugs:
  "list_all (\<lambda>d. truthy (doc_get d ''slug'')) docs \<Longrightarrow> convert_all ck k docs = Inr rows \<Longrightarrow>
   map slug rows = map (\<lambda>d. doc_get d ''slug'') docs"
proof (induction docs arbitrary: k rows)
  case Nil
  then show ?case by simp
next
  case (Cons d docs)
  from Cons.prems(2) obtain r rs where r: "convertDocumentToSupabaseFormat (ck k) d = Inr r"
      and rs: "convert_all ck (Suc k) docs = Inr rs" and rows: "rows = r # rs"
    by (auto split: sum.splits)
  from Cons.prems(1) have t: "truthy (doc_get d ''slug'')"
      and rest: "list_all (\<lambda>d. truthy (doc_get d ''slug'')) docs" by simp_all
  from convert_slug[OF r] t have "slug r = doc_get d ''slug''" by simp
  with Cons.IH[OF rest rs] rows show ?case by simp
qed

lemma convert_all_error_clock:
  "convert_all ck k docs = Inl e \<Longrightarrow> convert_all ck' k' docs = Inl e"
proof (induction docs arbitrary: k k')
  case Nil
  then show ?case by simp
next
  case (Cons d docs)
  show ?case
  proof (cases "excerpt_of d")
    case (Inl e')
    then have "convertDocumentToSupabaseFormat (ck k) d = Inl e'"
        "convertDocumentToSupabaseFormat (ck' k') d = Inl e'"
      by (simp_all add: convert_error_clock)
    with Cons.prems show ?thesis by simp
  next
    case (Inr v)
    then obtain r where r: "convertDocumentToSupabaseFormat (ck k) d = Inr r"
      by (cases "convertDocumentToSupabaseFormat (ck k) d") (simp_all add: convert_error_clock)
    from Inr obtain r' where r': "convertDocumentToSupabaseFormat (ck' k') d = Inr r'"
      by (cases "convertDocumentToSupabaseFormat (ck' k') d") (simp_all add: convert_error_clock)
    from Cons.prems r have "convert_all ck (Suc k) docs = Inl e"
      by (simp split: sum.splits)
    from Cons.IH[OF this, of "Suc k'"] r' show ?thesis by simp
  qed
qed

lemma convert_subscribers_emails:
  "map email (convert_subscribers ck k docs) = map (\<lambda>d. doc_get d ''email'') docs"
  by (induction docs arbitrary: k) (simp_all add: convertSubscriber_def)

subsection \<open>The tables after a run\<close>

lemma migration_error_fields [simp]:
  "articles_table (migration_error rt m st) = articles_table st"
  "subscribers_table (migration_error rt m st) = subscribers_table st"
  by (simp_all add: migration_error_def Let_def)

lemma upsert_Nil [simp]: "upsert key ig T [] = T"
  by (simp add: upsert_def)

lemma migrateData_tables:
  assumes "\<forall>k. articles_store rt k = Accepted" and "\<forall>k. subscribers_store rt k = Accepted"
  shows "articles_table (migrateData src rt st)
           = upsert slug False (articles_table st) (migrated_articles src rt)"
    and "subscribers_table (migrateData src rt st)
           = upsert email True (subscribers_table st) (migrated_subscribers src rt)"
proof -
  let ?copy = "connect_failure src = None \<and> ''articles'' \<in> set (collection_names src)
      \<and> article_docs src \<noteq> []"
  have "articles_table (migrateData src rt st)
           = upsert slug False (articles_table st) (migrated_articles src rt)
      \<and> subscribers_table (migrateData src rt st)
           = upsert email True (subscribers_table st) (migrated_subscribers src rt)"
  proof (cases ?copy)
    case False
    then show ?thesis
      by (auto simp: migrateData_def Let_def migrated_articles_def migrated_subscribers_def
          split: option.splits)
  next
    case True
    then have c: "connect_failure src = None" "''articles'' \<in> set (collection_names src)"
        "article_docs src \<noteq> []" by simp_all
    show ?thesis
    proof (cases "convert_all (article_clock rt) 0 (article_docs src)")
      case (Inl e)
      with c show ?thesis
        by (simp add: migrateData_def Let_def migrated_articles_def migrated_subscribers_def)
    next
      case (Inr rows)
      note copy = migrateData_copy[OF c Inr, of st]
      have a: "articles_table (migrateData src rt st) = upsert slug False (articles_table st) rows"
        by (simp add: copy migrateSubscribers_fields articles_loop_table[OF assms(1)])
      have s: "subscribers_table (migrateData src rt st)
          = (if ''subscribers'' \<in> set (collection_names src)
             then upsert email True (subscribers_table st)
                    (convert_subscribers (subscriber_clock rt) 0 (subscriber_docs src))
             else subscribers_table st)"
        by (simp add: copy migrateSubscribers_table[OF assms(2)] articles_loop_other)
      from a s c Inr show ?thesis
        by (simp add: migrated_articles_def migrated_subscribers_def)
    qed
  qed
  then show "articles_table (migrateData src rt st)
           = upsert slug False (articles_table st) (migrated_articles src rt)"
    and "subscribers_table (migrateData src rt st)
           = upsert email True (subscribers_table st) (migrated_subscribers src rt)"
    by simp_all
qed

lemma convert_all_Inr_clock:
  assumes "convert_all ck k docs = Inr rows"
  shows "\<exists>rows'. convert_all ck' k' docs = Inr rows'"
proof (cases "convert_all ck' k' docs")
  case (Inl e)
  from convert_all_error_clock[OF this, of ck k] assms show ?thesis by simp
next
  case (Inr rows')
  then show ?thesis by blast
qed

lemma migrated_articles_slugs:
  assumes "list_all (\<lambda>d. truthy (doc_get d ''slug'')) (article_docs src)"
  shows "map slug (migrated_articles src rt1) = map slug (migrated_articles src rt2)"
proof (cases "convert_all (article_clock rt1) 0 (article_docs src)")
  case (Inl e)
  from convert_all_error_clock[OF this, of "article_clock rt2" 0] Inl show ?thesis
    by (simp add: migrated_articles_def)
next
  case (Inr rows1)
  from convert_all_Inr_clock[OF this, of "article_clock rt2" 0]
  obtain rows2 where r2: "convert_all (article_clock rt2) 0 (article_docs src) = Inr rows2" ..
  from convert_all_slugs[OF assms Inr] convert_all_slugs[OF assms r2]
  have "map slug rows1 = map slug rows2" by simp
  with Inr r2 show ?thesis by (simp add: migrated_articles_def)
qed

lemma migrated_articles_same:
  assumes "list_all (\<lambda>d. truthy (doc_get d ''slug'')) (article_docs src)"
    and "list_all (\<lambda>d. truthy (doc_get d ''published_date'')) (article_docs src)"
  shows "migrated_articles src rt1 = migrated_articles src rt2"
proof -
  from assms have "list_all (\<lambda>d. truthy (doc_get d ''slug'') \<and> truthy (doc_get d ''published_date''))
      (article_docs src)"
    by (simp add: list_all_iff)
  from convert_all_clock_independent[OF this, of "article_clock rt1" 0 "article_clock rt2" 0]
  show ?thesis by (simp add: migrated_articles_def)
qed

lemma migrated_subscribers_emails:
  "map email (migrated_subscribers src rt1) = map email (migrated_subscribers src rt2)"
proof (cases "convert_all (article_clock rt1) 0 (article_docs src)")
  case (Inl e)
  from convert_all_error_clock[OF this, of "article_clock rt2" 0] Inl show ?thesis
    by (simp add: migrated_subscribers_def)
next
  case (Inr rows1)
  from convert_all_Inr_clock[OF this, of "article_clock rt2" 0]
  obtain rows2 where r2: "convert_all (article_clock rt2) 0 (article_docs src) = Inr rows2" ..
  with Inr show ?thesis
    by (simp add: migrated_subscribers_def convert_subscribers_emails)
qed

lemma image_of_map_eq: "map f xs = map f ys \<Longrightarrow> f ` set xs = f ` set ys"
  by (metis list.set_map)

text \<open>
  Claim C2, as the code has it. Let every source article have a (truthy) slug, let the
  store accept every batch of both runs, and let the destination start with distinct slugs
  and distinct emails. Then a second run over the unchanged source leaves the article
  table with the same slugs in the same order (no row is added, and no two rows share a
  slug) and leaves the subscriber table exactly as the first run left it (no two rows
  share an email). If every source article also has a published date, the article table
  after the second run is the table after the first. The slug of a generated record is the
  source slug when there is one, and otherwise \<open>article-\<close>, the clock in milliseconds, a
  hyphen and a random number below 1000: it is not derived from the title.
\<close>

theorem second_run_same_tables:
  assumes "list_all (\<lambda>d. truthy (doc_get d ''slug'')) (article_docs src)"
    and "\<forall>k. articles_store rt1 k = Accepted" and "\<forall>k. subscribers_store rt1 k = Accepted"
    and "\<forall>k. articles_store rt2 k = Accepted" and "\<forall>k. subscribers_store rt2 k = Accepted"
    and "distinct (map slug T)" and "distinct (map email S)"
    and "J1 = migrateData src rt1 (new_job T S)"
    and "J2 = migrateData src rt2 (new_job (articles_table J1) (subscribers_table J1))"
  shows "map slug (articles_table J2) = map slug (articles_table J1)
       \<and> distinct (map slug (articles_table J1))
       \<and> subscribers_table J2 = subscribers_table J1
       \<and> distinct (map email (subscribers_table J1))
       \<and> (list_all (\<lambda>d. truthy (doc_get d ''published_date'')) (article_docs src) \<longrightarrow>
            articles_table J2 = articles_table J1)
       \<and> (\<forall>ck d r. convertDocumentToSupabaseFormat ck d = Inr r \<longrightarrow>
            slug r = (if truthy (doc_get d ''slug'') then doc_get d ''slug''
                      else JStr (''article-'' @ dec (date_now ck) @ ''-'' @ dec (random_1000 ck))))"
proof -
  let ?A1 = "migrated_articles src rt1" and ?A2 = "migrated_articles src rt2"
  let ?B1 = "migrated_subscribers src rt1" and ?B2 = "migrated_subscribers src rt2"
  let ?U = "upsert slug False T ?A1" and ?V = "upsert email True S ?B1"
  have a1: "articles_table J1 = ?U" and b1: "subscribers_table J1 = ?V"
    by (simp_all add: assms(8) migrateData_tables[OF assms(2,3)])
  have a2: "articles_table J2 = upsert slug False ?U ?A2"
    and b2: "subscribers_table J2 = upsert email True ?V ?B2"
    by (simp_all add: assms(9) migrateData_tables[OF assms(4,5)] a1 b1)
  have "slug ` set ?A2 = slug ` set ?A1"
    by (rule image_of_map_eq[OF migrated_articles_slugs[OF assms(1), symmetric]])
  then have "slug ` set ?A2 \<subseteq> slug ` set ?U" by (simp add: upsert_key_set)
  then have c1: "map slug (articles_table J2) = map slug (articles_table J1)"
    by (simp add: a1 a2 upsert_same_keys)
  have c2: "distinct (map slug (articles_table J1))"
    by (simp only: a1 upsert_distinct[OF assms(6)])
  have "email ` set ?B2 = email ` set ?B1"
    by (rule image_of_map_eq[OF migrated_subscribers_emails])
  then have "email ` set ?B2 \<subseteq> email ` set ?V" by (simp add: upsert_key_set)
  then have c3: "subscribers_table J2 = subscribers_table J1"
    by (simp add: b1 b2 upsert_ignore_present)
  have c4: "distinct (map email (subscribers_table J1))"
    by (simp only: b1 upsert_distinct[OF assms(7)])
  have c5: "articles_table J2 = articles_table J1"
    if "list_all (\<lambda>d. truthy (doc_get d ''published_date'')) (article_docs src)"
  proof -
    from migrated_articles_same[OF assms(1) that] have "?A2 = ?A1" by simp
    then show ?thesis
      by (simp add: a1 a2 upsert_overwrite_twice[OF assms(6)])
  qed
  have c6: "\<forall>ck d r. convertDocumentToSupabaseFormat ck d = Inr r \<longrightarrow>
            slug r = (if truthy (doc_get d ''slug'') then doc_get d ''slug''
                      else JStr (''article-'' @ dec (date_now ck) @ ''-'' @ dec (random_1000 ck)))"
    using convert_slug by blast
  from c1 c2 c3 c4 c5 c6 show ?thesis by blast
qed

text \<open>
  The claim as written fails for a source article without a slug: two runs at different
  times give it two different slugs, neither derived from its title, and the second run
  adds a second row.
\<close>

theorem second_run_duplicates_counterexample:
  "map slug (articles_table (migrateData ex_source (ex_runtime 1000) (new_job [] [])))
     = [JStr ''article-1000-7'']
   \<and> map slug (articles_table (migrateData ex_source (ex_runtime 2000)
        (new_job (articles_table (migrateData ex_source (ex_runtime 1000) (new_job [] [])))
                 (subscribers_table (migrateData ex_source (ex_runtime 1000) (new_job [] []))))))
     = [JStr ''article-1000-7'', JStr ''article-2000-7'']
   \<and> createSlug ''Hello World'' = ''hello-world''"
  by code_simp

theorem second_run_same_tables_witness:
  "map slug (articles_table (migrateData ex_source2 (ex_runtime 1000) (new_job [] [])))
     = [JStr ''bail-basics'', JStr ''custody-order'']
   \<and> articles_table (migrateData ex_source2 (ex_runtime 2000)
        (new_job (articles_table (migrateData ex_source2 (ex_runtime 1000) (new_job [] [])))
                 (subscribers_table (migrateData ex_source2 (ex_runtime 1000) (new_job [] [])))))
     = articles_table (migrateData ex_source2 (ex_runtime 1000) (new_job [] []))
   \<and> subscribers_table (migrateData ex_source2 (ex_runtime 2000)
        (new_job (articles_table (migrateData ex_source2 (ex_runtime 1000) (new_job [] [])))
                 (subscribers_table (migrateData ex_source2 (ex_runtime 1000) (new_job [] [])))))
     = subscribers_table (migrateData ex_source2 (ex_runtime 1000) (new_job [] []))
   \<and> map email (subscribers_table (migrateData ex_source2 (ex_runtime 1000) (new_job [] [])))
     = [JStr ''a@b.example'']"
proof -
  let ?J1 = "migrateData ex_source2 (ex_runtime 1000) (new_job [] [])"
  let ?J2 = "migrateData ex_source2 (ex_runtime 2000)
        (new_job (articles_table ?J1) (subscribers_table ?J1))"
  have h1: "list_all (\<lambda>d. truthy (doc_get d ''slug'')) (article_docs ex_source2)"
    by (simp add: ex_source2_def doc_get_def)
  have h2: "\<forall>k. articles_store (ex_runtime 1000) k = Accepted"
    and h3: "\<forall>k. subscribers_store (ex_runtime 1000) k = Accepted"
    and h4: "\<forall>k. articles_store (ex_runtime 2000) k = Accepted"
    and h5: "\<forall>k. subscribers_store (ex_runtime 2000) k = Accepted"
    by (simp_all add: ex_runtime_def)
  have h6: "distinct (map slug ([] :: supabase_article list))"
    and h7: "distinct (map email ([] :: supabase_subscriber list))" by simp_all
  have h8: "list_all (\<lambda>d. truthy (doc_get d ''published_date'')) (article_docs ex_source2)"
    by (simp add: ex_source2_def doc_get_def)
  note t = second_run_same_tables[OF h1 h2 h3 h4 h5 h6 h7 refl refl]
  have e1: "map slug (articles_table ?J1) = [JStr ''bail-basics'', JStr ''custody-order'']"
    by code_simp
  have e2: "map email (subscribers_table ?J1) = [JStr ''a@b.example'']"
    by code_simp
  from t h8 have "articles_table ?J2 = articles_table ?J1" by blast
  moreover from t have "subscribers_table ?J2 = subscribers_table ?J1" by blast
  ultimately show ?thesis using e1 e2 by blast
qed

end
